theory Spec2Isabelle
  imports Complex_Main "HOL-Library.Word"
begin

section \<open>The binding layer of lib/sqlite-api.cjs\<close>

text \<open>
  The file lib/sqlite-api.cjs wraps the compiled engine (the Emscripten module built by
  build.sh) in two classes, \<open>SQLiteDatabase\<close> and \<open>SQLiteAPI\<close>. The engine is not part
  of the repository: the binding sees it as the object \<open>module\<close>, through the runtime
  helpers and the exported C functions listed in the build script
  (\<open>EXPORTED_RUNTIME_METHODS\<close>, \<open>EXPORTED_FUNCTIONS\<close>). The model takes the module as a
  parameter: a record of functions over an engine state of any type \<open>'s\<close>. Every theorem
  that is stated for a module \<open>E\<close> holds for every engine.

  Modelling decisions:
  \<^item> a value that crosses into an exported C function is a 32-bit integer (the exports
    have wasm type i32 for pointers, \<open>int\<close> arguments and status codes); a JavaScript
    number passed to such an argument is converted by \<open>ToInt32\<close>;
  \<^item> an exported function returns to its caller (a trap inside the engine is outside
    the model); \<open>getValue\<close> and \<open>UTF8ToString\<close> only read the engine's memory;
  \<^item> \<open>UTF8ToString\<close> builds a host string and so may throw (a text longer than the
    host's longest string raises a \<open>RangeError\<close>): it yields the string or the exception,
    and the exception leaves the binding by the path the source gives it;
  \<^item> a JavaScript exception is the left injection of a sum, \<open>Error\<close> carrying the
    message; \<open>try { body } finally { cleanup }\<close> runs the cleanup on the state the body
    leaves, whatever the body's outcome;
  \<^item> the loop \<open>while (true)\<close> of \<open>query\<close> runs on fuel: \<open>None\<close> means the loop has not
    returned within the fuel.
\<close>

subsection \<open>Host values\<close>

type_synonym i32 = "32 word"

text \<open>
  A JavaScript number: a finite value (over-approximated by the rationals), NaN, or an
  infinity (\<open>True\<close> for the positive one).
\<close>

datatype jsnum = Finite rat | NaN | Infinity bool

text \<open>The host values a caller can put into \<open>params\<close> and find in a row.\<close>

datatype jsval =
    JNull
  | JUndefined
  | JNumber jsnum
  | JString string
  | JBoolean bool
  | JBigInt int
  | JBytes "8 word list"   \<comment> \<open>a Uint8Array, the host's byte sequence\<close>

fun typeof :: "jsval \<Rightarrow> string" where
  "typeof JNull = ''object''"
| "typeof JUndefined = ''undefined''"
| "typeof (JNumber x) = ''number''"
| "typeof (JString t) = ''string''"
| "typeof (JBoolean b) = ''boolean''"
| "typeof (JBigInt n) = ''bigint''"
| "typeof (JBytes bs) = ''object''"

fun Number_isInteger :: "jsnum \<Rightarrow> bool" where
  "Number_isInteger (Finite q) = (of_int \<lfloor>q\<rfloor> = q)"
| "Number_isInteger NaN = False"
| "Number_isInteger (Infinity b) = False"

text \<open>
  ECMAScript \<open>ToInt32\<close>, the conversion of a number passed to an i32 argument of an
  export: NaN and the infinities give 0, a finite number is truncated towards zero and
  wrapped modulo \<open>2 ^ 32\<close>.
\<close>

fun ToInt32 :: "jsnum \<Rightarrow> i32" where
  "ToInt32 (Finite q) = word_of_int (if 0 \<le> q then \<lfloor>q\<rfloor> else \<lceil>q\<rceil>)"
| "ToInt32 NaN = 0"
| "ToInt32 (Infinity b) = 0"

text \<open>A JavaScript \<open>Error\<close> with its message.\<close>

datatype error = Error string

text \<open>
  A row is the object \<open>{}\<close> filled by \<open>row[name] = value\<close>: its own properties in the
  order in which the object enumerates them. That order is: the names that are array
  indices (the decimal numeral of a number below \<open>2 ^ 32 - 1\<close>, without a leading zero)
  in ascending numeric order, then the other names in the order of their first
  assignment. Assigning to an existing name replaces the value in place.

  The name \<open>__proto__\<close> is the accessor that \<open>{}\<close> inherits from \<open>Object.prototype\<close>.
  Assigning through the accessor creates no own property: a string changes nothing, and
  null removes the prototype of the object, after which \<open>__proto__\<close> is a name like any
  other. The object under construction is therefore a pair: whether it still inherits
  the accessor, and its own properties. (The values \<open>query\<close> assigns are strings and
  null.)
\<close>

type_synonym row = "(string \<times> jsval) list"

definition digit_of :: "char \<Rightarrow> int option" where
  "digit_of c =
     (let n = (of_char c :: int) in if 48 \<le> n \<and> n \<le> 57 then Some (n - 48) else None)"

fun digits_value :: "int \<Rightarrow> string \<Rightarrow> int option" where
  "digits_value acc [] = Some acc"
| "digits_value acc (c # cs) =
     (case digit_of c of None \<Rightarrow> None | Some d \<Rightarrow> digits_value (10 * acc + d) cs)"

definition array_index :: "string \<Rightarrow> int option" where
  "array_index k =
     (if k = [] \<or> (hd k = CHR ''0'' \<and> k \<noteq> ''0'') then None
      else case digits_value 0 k of
             None \<Rightarrow> None
           | Some n \<Rightarrow> if n < 4294967295 then Some n else None)"

fun replace_property :: "string \<Rightarrow> jsval \<Rightarrow> row \<Rightarrow> row" where
  "replace_property k v [] = []"
| "replace_property k v ((k', v') # r) =
     (if k = k' then (k, v) # r else (k', v') # replace_property k v r)"

fun insert_property :: "string \<Rightarrow> jsval \<Rightarrow> row \<Rightarrow> row" where
  "insert_property k v [] = [(k, v)]"
| "insert_property k v ((k', v') # r) =
     (case array_index k of
        None \<Rightarrow> (k', v') # insert_property k v r
      | Some n \<Rightarrow>
          (case array_index k' of
             None \<Rightarrow> (k, v) # (k', v') # r
           | Some n' \<Rightarrow>
               if n < n' then (k, v) # (k', v') # r else (k', v') # insert_property k v r))"

definition put_property :: "string \<Rightarrow> jsval \<Rightarrow> row \<Rightarrow> row" where
  "put_property k v r =
     (if k \<in> set (map fst r) then replace_property k v r else insert_property k v r)"

definition empty_object :: "bool \<times> row" where
  "empty_object = (True, [])"

definition set_property :: "bool \<times> row \<Rightarrow> string \<Rightarrow> jsval \<Rightarrow> bool \<times> row" where
  "set_property obj k v =
     (if k = ''__proto__'' \<and> fst obj then (v \<noteq> JNull, snd obj)
      else (fst obj, put_property k v (snd obj)))"

subsection \<open>Rendering a number in a template string\<close>

definition digit_char :: "nat \<Rightarrow> char" where
  "digit_char n = ''0123456789'' ! (n mod 10)"

fun show_nat :: "nat \<Rightarrow> string" where
  "show_nat n = (if n < 10 then [digit_char n] else show_nat (n div 10) @ [digit_char (n mod 10)])"

declare show_nat.simps [simp del]

definition show_int :: "int \<Rightarrow> string" where
  "show_int i = (if i < 0 then CHR ''-'' # show_nat (nat (- i)) else show_nat (nat i))"

subsection \<open>The module: the engine behind the ABI\<close>

text \<open>
  One field for each member of \<open>module\<close> that the binding calls, with the arguments in
  the order of the call, and three exports of the build that the binding could call and
  does not (\<open>sqlite3_column_type\<close>, \<open>sqlite3_bind_int64\<close>, \<open>sqlite3_bind_blob\<close>).
  The leading underscore of an export's name is dropped.
\<close>

record 's module =
  allocateUTF8 :: "string \<Rightarrow> 's \<Rightarrow> i32 \<times> 's"
  UTF8ToString :: "i32 \<Rightarrow> 's \<Rightarrow> error + string"
  getValue :: "i32 \<Rightarrow> 's \<Rightarrow> i32"
  malloc :: "i32 \<Rightarrow> 's \<Rightarrow> i32 \<times> 's"
  free :: "i32 \<Rightarrow> 's \<Rightarrow> 's"
  sqlite3_open :: "i32 \<Rightarrow> i32 \<Rightarrow> 's \<Rightarrow> i32 \<times> 's"
  sqlite3_close :: "i32 \<Rightarrow> 's \<Rightarrow> i32 \<times> 's"
  sqlite3_exec :: "i32 \<Rightarrow> i32 \<Rightarrow> i32 \<Rightarrow> i32 \<Rightarrow> i32 \<Rightarrow> 's \<Rightarrow> i32 \<times> 's"
  sqlite3_prepare_v2 :: "i32 \<Rightarrow> i32 \<Rightarrow> i32 \<Rightarrow> i32 \<Rightarrow> i32 \<Rightarrow> 's \<Rightarrow> i32 \<times> 's"
  sqlite3_step :: "i32 \<Rightarrow> 's \<Rightarrow> i32 \<times> 's"
  sqlite3_finalize :: "i32 \<Rightarrow> 's \<Rightarrow> i32 \<times> 's"
  sqlite3_column_count :: "i32 \<Rightarrow> 's \<Rightarrow> i32 \<times> 's"
  sqlite3_column_name :: "i32 \<Rightarrow> i32 \<Rightarrow> 's \<Rightarrow> i32 \<times> 's"
  sqlite3_column_type :: "i32 \<Rightarrow> i32 \<Rightarrow> 's \<Rightarrow> i32 \<times> 's"
  sqlite3_column_text :: "i32 \<Rightarrow> i32 \<Rightarrow> 's \<Rightarrow> i32 \<times> 's"
  sqlite3_bind_int :: "i32 \<Rightarrow> i32 \<Rightarrow> i32 \<Rightarrow> 's \<Rightarrow> i32 \<times> 's"
  sqlite3_bind_int64 :: "i32 \<Rightarrow> i32 \<Rightarrow> 64 word \<Rightarrow> 's \<Rightarrow> i32 \<times> 's"
  sqlite3_bind_double :: "i32 \<Rightarrow> i32 \<Rightarrow> jsnum \<Rightarrow> 's \<Rightarrow> i32 \<times> 's"
  sqlite3_bind_text :: "i32 \<Rightarrow> i32 \<Rightarrow> i32 \<Rightarrow> i32 \<Rightarrow> i32 \<Rightarrow> 's \<Rightarrow> i32 \<times> 's"
  sqlite3_bind_blob :: "i32 \<Rightarrow> i32 \<Rightarrow> i32 \<Rightarrow> i32 \<Rightarrow> i32 \<Rightarrow> 's \<Rightarrow> i32 \<times> 's"
  sqlite3_errmsg :: "i32 \<Rightarrow> 's \<Rightarrow> i32 \<times> 's"
  sqlite3_changes :: "i32 \<Rightarrow> 's \<Rightarrow> i32 \<times> 's"

subsection \<open>The constants of the file\<close>

definition SQLITE_OK :: i32 where "SQLITE_OK = 0"
definition SQLITE_ROW :: i32 where "SQLITE_ROW = 100"
definition SQLITE_DONE :: i32 where "SQLITE_DONE = 101"

subsection \<open>class SQLiteDatabase\<close>

record SQLiteDatabase =
  dbPtr :: i32
  closed :: bool

definition database_closed :: error where
  "database_closed = Error ''Database is closed''"

text \<open>\<open>try { body } finally { cleanup }\<close> over a body that may not return.\<close>

definition try_finally :: "('a \<times> 's) option \<Rightarrow> ('s \<Rightarrow> 's) \<Rightarrow> ('a \<times> 's) option" where
  "try_finally body cleanup = map_option (\<lambda>(r, s). (r, cleanup s)) body"

text \<open>The replacement \<open>key.replace(/'/g, "''")\<close>: every quote is doubled.\<close>

definition escape_quotes :: "string \<Rightarrow> string" where
  "escape_quotes key = concat (map (\<lambda>c. if c = CHR 0x27 then [c, c] else [c]) key)"

definition getErrorMessage ::
  "'s module \<Rightarrow> SQLiteDatabase \<Rightarrow> 's \<Rightarrow> (error + string) \<times> 's" where
  "getErrorMessage E db s =
     (let (errPtr, s1) = sqlite3_errmsg E (dbPtr db) s
      in (if errPtr \<noteq> 0 then UTF8ToString E errPtr s1 else Inr ''Unknown error'', s1))"

definition getChanges :: "'s module \<Rightarrow> SQLiteDatabase \<Rightarrow> 's \<Rightarrow> i32 \<times> 's" where
  "getChanges E db s = sqlite3_changes E (dbPtr db) s"

definition close :: "'s module \<Rightarrow> SQLiteDatabase \<Rightarrow> 's \<Rightarrow> SQLiteDatabase \<times> 's" where
  "close E db s =
     (if closed db then (db, s)
      else let (rc, s1) = sqlite3_close E (dbPtr db) s
           in (db\<lparr>closed := True\<rparr>, s1))"

text \<open>
  \<open>exec\<close>: the \<open>finally\<close> block frees \<open>sqlPtr\<close> after every outcome of the \<open>try\<close> block.
  When the read of the engine's message throws, the statement \<open>_free(errMsgPtr)\<close> that
  follows it is not reached.
\<close>

definition exec :: "'s module \<Rightarrow> SQLiteDatabase \<Rightarrow> string \<Rightarrow> 's \<Rightarrow> (error + unit) \<times> 's" where
  "exec E db sql s =
     (if closed db then (Inl database_closed, s)
      else
        let (sqlPtr, s1) = allocateUTF8 E sql s;
            (errMsgPtr, s2) = malloc E 4 s1;
            (result, s3) = sqlite3_exec E (dbPtr db) sqlPtr 0 0 errMsgPtr s2;
            (r, s5) =
              (if result \<noteq> SQLITE_OK then
                 let errPtr = getValue E errMsgPtr s3 in
                 case (if errPtr \<noteq> 0 then UTF8ToString E errPtr s3
                       else Inr ''Unknown error'') of
                   Inl e \<Rightarrow> (Inl e, s3)
                 | Inr errMsg \<Rightarrow>
                     (Inl (Error (''SQLite error: '' @ errMsg)), free E errMsgPtr s3)
               else (Inr (), free E errMsgPtr s3))
        in (r, free E sqlPtr s5))"

text \<open>The template string \<open>`PRAGMA key = '${key.replace(/'/g, "''")}'`\<close>.\<close>

definition key_statement :: "string \<Rightarrow> string" where
  "key_statement key = ''PRAGMA key = '' @ [CHR 0x27] @ escape_quotes key @ [CHR 0x27]"

definition setKey :: "'s module \<Rightarrow> SQLiteDatabase \<Rightarrow> string \<Rightarrow> 's \<Rightarrow> (error + unit) \<times> 's" where
  "setKey E db key s =
     (if closed db then (Inl database_closed, s)
      else
        case exec E db (key_statement key) s of
          (Inl (Error message), s1) \<Rightarrow>
            (Inl (Error (''Failed to set encryption key: '' @ message)), s1)
        | (Inr u, s1) \<Rightarrow> (Inr (), s1))"

definition rekey :: "'s module \<Rightarrow> SQLiteDatabase \<Rightarrow> string \<Rightarrow> 's \<Rightarrow> (error + unit) \<times> 's" where
  "rekey E db newKey s =
     (if closed db then (Inl database_closed, s)
      else exec E db (''PRAGMA rekey = '' @ [CHR 0x27] @ escape_quotes newKey @ [CHR 0x27]) s)"

text \<open>
  \<open>bindParameters\<close>: the loop over \<open>params\<close>, \<open>i\<close> being the position of the head of the
  list. The status every bind call returns is dropped, as in the source.
\<close>

fun bindParameters_from ::
  "'s module \<Rightarrow> i32 \<Rightarrow> nat \<Rightarrow> jsval list \<Rightarrow> 's \<Rightarrow> (error + unit) \<times> 's" where
  "bindParameters_from E stmt i [] s = (Inr (), s)"
| "bindParameters_from E stmt i (param # rest) s =
     (let index = i + 1 in
      case param of
        JNull \<Rightarrow> bindParameters_from E stmt (i + 1) rest s
      | JUndefined \<Rightarrow> bindParameters_from E stmt (i + 1) rest s
      | JNumber x \<Rightarrow>
          (if Number_isInteger x then
             let (rc, s1) = sqlite3_bind_int E stmt (of_nat index) (ToInt32 x) s
             in bindParameters_from E stmt (i + 1) rest s1
           else
             let (rc, s1) = sqlite3_bind_double E stmt (of_nat index) x s
             in bindParameters_from E stmt (i + 1) rest s1)
      | JString t \<Rightarrow>
          (let (strPtr, s1) = allocateUTF8 E t s;
               (rc, s2) = sqlite3_bind_text E stmt (of_nat index) strPtr (- 1) 0 s1
           in bindParameters_from E stmt (i + 1) rest s2)
      | _ \<Rightarrow> (Inl (Error (''Unsupported parameter type: '' @ typeof param)), s))"

definition bindParameters ::
  "'s module \<Rightarrow> i32 \<Rightarrow> jsval list \<Rightarrow> 's \<Rightarrow> (error + unit) \<times> 's" where
  "bindParameters E stmt params s = bindParameters_from E stmt 0 params s"

text \<open>The loop that collects the column names, over the indices \<open>0 .. columnCount - 1\<close>.\<close>

fun column_names ::
  "'s module \<Rightarrow> i32 \<Rightarrow> nat list \<Rightarrow> string list \<Rightarrow> 's \<Rightarrow> (error + string list) \<times> 's" where
  "column_names E stmt [] columns s = (Inr columns, s)"
| "column_names E stmt (i # is) columns s =
     (let (namePtr, s1) = sqlite3_column_name E stmt (of_nat i) s in
      case UTF8ToString E namePtr s1 of
        Inl e \<Rightarrow> (Inl e, s1)
      | Inr name \<Rightarrow> column_names E stmt is (columns @ [name]) s1)"

text \<open>
  One column of the current row, the right-hand side of the assignment in the inner loop
  of \<open>query\<close>: \<open>valuePtr ? UTF8ToString(valuePtr) : null\<close>.
\<close>

definition column_value ::
  "'s module \<Rightarrow> i32 \<Rightarrow> nat \<Rightarrow> 's \<Rightarrow> (error + jsval) \<times> 's" where
  "column_value E stmt i s =
     (let (valuePtr, s1) = sqlite3_column_text E stmt (of_nat i) s
      in (if valuePtr \<noteq> 0 then
            (case UTF8ToString E valuePtr s1 of Inl e \<Rightarrow> Inl e | Inr t \<Rightarrow> Inr (JString t))
          else Inr JNull, s1))"

text \<open>\<open>columns[i]\<close>: out of range it is \<open>undefined\<close>, which as a property name is the string.\<close>

definition column_key :: "string list \<Rightarrow> nat \<Rightarrow> string" where
  "column_key columns i = (if i < length columns then columns ! i else ''undefined'')"

fun read_row ::
  "'s module \<Rightarrow> i32 \<Rightarrow> string list \<Rightarrow> nat list \<Rightarrow> bool \<times> row \<Rightarrow> 's
     \<Rightarrow> (error + row) \<times> 's" where
  "read_row E stmt columns [] row s = (Inr (snd row), s)"
| "read_row E stmt columns (i # is) row s =
     (case column_value E stmt i s of
        (Inl e, s1) \<Rightarrow> (Inl e, s1)
      | (Inr v, s1) \<Rightarrow>
          read_row E stmt columns is (set_property row (column_key columns i) v) s1)"

text \<open>
  The loop \<open>while (true)\<close> that steps the statement. \<open>idx\<close> is the list of column indices.
\<close>

fun fetch_rows ::
  "nat \<Rightarrow> 's module \<Rightarrow> SQLiteDatabase \<Rightarrow> i32 \<Rightarrow> string list \<Rightarrow> nat list \<Rightarrow> row list \<Rightarrow> 's
     \<Rightarrow> ((error + row list) \<times> 's) option" where
  "fetch_rows 0 E db stmt columns idx rows s = None"
| "fetch_rows (Suc fuel) E db stmt columns idx rows s =
     (let (stepResult, s1) = sqlite3_step E stmt s in
      if stepResult = SQLITE_DONE then Some (Inr rows, s1)
      else if stepResult \<noteq> SQLITE_ROW then
        (case getErrorMessage E db s1 of
           (Inl e, s2) \<Rightarrow> Some (Inl e, s2)
         | (Inr errMsg, s2) \<Rightarrow> Some (Inl (Error (''Step failed: '' @ errMsg)), s2))
      else
        (case read_row E stmt columns idx empty_object s1 of
           (Inl e, s2) \<Rightarrow> Some (Inl e, s2)
         | (Inr row, s2) \<Rightarrow> fetch_rows fuel E db stmt columns idx (rows @ [row]) s2))"

text \<open>The body of the inner \<open>try\<close> block of \<open>query\<close>, from the bind to the return.\<close>

definition query_statement ::
  "nat \<Rightarrow> 's module \<Rightarrow> SQLiteDatabase \<Rightarrow> i32 \<Rightarrow> jsval list \<Rightarrow> 's
     \<Rightarrow> ((error + row list) \<times> 's) option" where
  "query_statement fuel E db stmt params s =
     (case bindParameters E stmt params s of
        (Inl e, s1) \<Rightarrow> Some (Inl e, s1)
      | (Inr u, s1) \<Rightarrow>
          let (columnCount, s2) = sqlite3_column_count E stmt s1;
              idx = [0 ..< nat (sint columnCount)]
          in case column_names E stmt idx [] s2 of
               (Inl e, s3) \<Rightarrow> Some (Inl e, s3)
             | (Inr columns, s3) \<Rightarrow> fetch_rows fuel E db stmt columns idx [] s3)"

text \<open>The body of the outer \<open>try\<close> block: prepare, then the inner \<open>try\<close>/\<open>finally\<close>.\<close>

definition query_prepared ::
  "nat \<Rightarrow> 's module \<Rightarrow> SQLiteDatabase \<Rightarrow> i32 \<Rightarrow> i32 \<Rightarrow> jsval list \<Rightarrow> 's
     \<Rightarrow> ((error + row list) \<times> 's) option" where
  "query_prepared fuel E db sqlPtr stmtPtr params s =
     (let (result, s1) = sqlite3_prepare_v2 E (dbPtr db) sqlPtr (- 1) stmtPtr 0 s in
      if result \<noteq> SQLITE_OK then
        (case getErrorMessage E db s1 of
           (Inl e, s2) \<Rightarrow> Some (Inl e, s2)
         | (Inr errMsg, s2) \<Rightarrow>
             Some (Inl (Error (''Failed to prepare statement: '' @ errMsg)), s2))
      else
        let stmt = getValue E stmtPtr s1 in
        if stmt = 0 then Some (Inl (Error ''Failed to prepare statement: null statement''), s1)
        else
          try_finally (query_statement fuel E db stmt params s1)
            (\<lambda>s'. snd (sqlite3_finalize E stmt s')))"

definition query ::
  "nat \<Rightarrow> 's module \<Rightarrow> SQLiteDatabase \<Rightarrow> string \<Rightarrow> jsval list \<Rightarrow> 's
     \<Rightarrow> ((error + row list) \<times> 's) option" where
  "query fuel E db sql params s =
     (if closed db then Some (Inl database_closed, s)
      else
        let (sqlPtr, s1) = allocateUTF8 E sql s;
            (stmtPtr, s2) = malloc E 4 s1
        in try_finally (query_prepared fuel E db sqlPtr stmtPtr params s2)
             (\<lambda>s'. free E sqlPtr (free E stmtPtr s')))"

subsection \<open>class SQLiteAPI\<close>

text \<open>
  \<open>open(filename, key)\<close>: \<open>key\<close> is a string or the default \<open>null\<close> (\<open>None\<close>); the test
  \<open>if (key)\<close> holds for a string that is not empty.
\<close>

definition truthy_key :: "string option \<Rightarrow> bool" where
  "truthy_key key = (case key of None \<Rightarrow> False | Some k \<Rightarrow> k \<noteq> [])"

definition open_db ::
  "'s module \<Rightarrow> string \<Rightarrow> string option \<Rightarrow> 's \<Rightarrow> (error + SQLiteDatabase) \<times> 's" where
  "open_db E filename key s =
     (let (filenamePtr, s1) = allocateUTF8 E filename s;
          (dbPtrPtr, s2) = malloc E 4 s1;
          (result, s3) = sqlite3_open E filenamePtr dbPtrPtr s2;
          (r, s5) =
            (if result \<noteq> SQLITE_OK then
               (Inl (Error (''Failed to open database: '' @ show_int (sint result))), s3)
             else
               let p = getValue E dbPtrPtr s3 in
               if p = 0 then (Inl (Error ''Failed to open database: null pointer''), s3)
               else
                 let db = \<lparr>dbPtr = p, closed = False\<rparr> in
                 case (if truthy_key key then key else None) of
                   Some k \<Rightarrow>
                     (case setKey E db k s3 of
                        (Inl e, s4) \<Rightarrow> (Inl e, s4)
                      | (Inr u, s4) \<Rightarrow> (Inr db, s4))
                 | None \<Rightarrow> (Inr db, s3))
      in (r, free E filenamePtr (free E dbPtrPtr s5)))"

section \<open>Observing the calls\<close>

text \<open>
  A claim about which calls the binding makes, how often and in which order, is a claim
  about the sequence of calls that reach the module. \<open>traced E\<close> is the module \<open>E\<close> with
  a log: every call that can change the engine appends one event, holding its arguments
  and then its result. The event of \<open>sqlite3_column_name\<close> and of \<open>sqlite3_column_text\<close>
  also holds what \<open>UTF8ToString\<close> yields at the returned pointer when the call returns:
  the text the engine answered with. The binding is run on \<open>traced E\<close> exactly as on \<open>E\<close>.
\<close>

datatype event =
    Call_allocateUTF8 string i32
  | Call_malloc i32 i32
  | Call_free i32
  | Call_open i32 i32 i32
  | Call_close i32 i32
  | Call_exec i32 i32 i32 i32 i32 i32
  | Call_prepare_v2 i32 i32 i32 i32 i32 i32
  | Call_step i32 i32
  | Call_finalize i32 i32
  | Call_column_count i32 i32
  | Call_column_name i32 i32 i32 "error + string"
  | Call_column_type i32 i32 i32
  | Call_column_text i32 i32 i32 "error + string"
  | Call_bind_int i32 i32 i32 i32
  | Call_bind_int64 i32 i32 "64 word" i32
  | Call_bind_double i32 i32 jsnum i32
  | Call_bind_text i32 i32 i32 i32 i32 i32
  | Call_bind_blob i32 i32 i32 i32 i32 i32
  | Call_errmsg i32 i32
  | Call_changes i32 i32

type_synonym 's traced = "'s \<times> event list"

definition record_call ::
  "('s \<Rightarrow> 'r \<times> 's) \<Rightarrow> ('r \<Rightarrow> event) \<Rightarrow> 's traced \<Rightarrow> 'r \<times> 's traced" where
  "record_call f ev st =
     (let (r, s') = f (fst st) in (r, (s', snd st @ [ev r])))"

definition record_text ::
  "'s module \<Rightarrow> ('s \<Rightarrow> i32 \<times> 's) \<Rightarrow> (i32 \<Rightarrow> error + string \<Rightarrow> event) \<Rightarrow> 's traced
     \<Rightarrow> i32 \<times> 's traced" where
  "record_text E f ev st =
     (let (p, s') = f (fst st) in (p, (s', snd st @ [ev p (UTF8ToString E p s')])))"

definition traced :: "'s module \<Rightarrow> 's traced module" where
  "traced E =
     \<lparr> allocateUTF8 = (\<lambda>t. record_call (allocateUTF8 E t) (Call_allocateUTF8 t)),
       UTF8ToString = (\<lambda>p st. UTF8ToString E p (fst st)),
       getValue = (\<lambda>p st. getValue E p (fst st)),
       malloc = (\<lambda>n. record_call (malloc E n) (Call_malloc n)),
       free = (\<lambda>p st. (free E p (fst st), snd st @ [Call_free p])),
       sqlite3_open = (\<lambda>f out. record_call (sqlite3_open E f out) (Call_open f out)),
       sqlite3_close = (\<lambda>db. record_call (sqlite3_close E db) (Call_close db)),
       sqlite3_exec = (\<lambda>db sql cb arg err.
          record_call (sqlite3_exec E db sql cb arg err) (Call_exec db sql cb arg err)),
       sqlite3_prepare_v2 = (\<lambda>db sql n out tl.
          record_call (sqlite3_prepare_v2 E db sql n out tl) (Call_prepare_v2 db sql n out tl)),
       sqlite3_step = (\<lambda>stmt. record_call (sqlite3_step E stmt) (Call_step stmt)),
       sqlite3_finalize = (\<lambda>stmt. record_call (sqlite3_finalize E stmt) (Call_finalize stmt)),
       sqlite3_column_count = (\<lambda>stmt.
          record_call (sqlite3_column_count E stmt) (Call_column_count stmt)),
       sqlite3_column_name = (\<lambda>stmt i.
          record_text E (sqlite3_column_name E stmt i) (Call_column_name stmt i)),
       sqlite3_column_type = (\<lambda>stmt i.
          record_call (sqlite3_column_type E stmt i) (Call_column_type stmt i)),
       sqlite3_column_text = (\<lambda>stmt i.
          record_text E (sqlite3_column_text E stmt i) (Call_column_text stmt i)),
       sqlite3_bind_int = (\<lambda>stmt i v.
          record_call (sqlite3_bind_int E stmt i v) (Call_bind_int stmt i v)),
       sqlite3_bind_int64 = (\<lambda>stmt i v.
          record_call (sqlite3_bind_int64 E stmt i v) (Call_bind_int64 stmt i v)),
       sqlite3_bind_double = (\<lambda>stmt i v.
          record_call (sqlite3_bind_double E stmt i v) (Call_bind_double stmt i v)),
       sqlite3_bind_text = (\<lambda>stmt i p n d.
          record_call (sqlite3_bind_text E stmt i p n d) (Call_bind_text stmt i p n d)),
       sqlite3_bind_blob = (\<lambda>stmt i p n d.
          record_call (sqlite3_bind_blob E stmt i p n d) (Call_bind_blob stmt i p n d)),
       sqlite3_errmsg = (\<lambda>db. record_call (sqlite3_errmsg E db) (Call_errmsg db)),
       sqlite3_changes = (\<lambda>db. record_call (sqlite3_changes E db) (Call_changes db)) \<rparr>"

section \<open>A small engine to run the binding on\<close>

text \<open>
  The engine is outside the repository, so a run on concrete input needs a module to run
  on. \<open>echo_engine\<close> is a module small enough to evaluate: one connection, one statement at
  a time. A statement has one parameter and one column for each \<open>?\<close> of its SQL text, and
  yields a single row that holds the bound parameters. It follows the engine's interface
  where the binding depends on it:
  \<^item> \<open>allocateUTF8\<close> stores the text followed by a NUL, and \<open>UTF8ToString\<close> reads up to
    the first NUL;
  \<^item> a bind call at an index outside \<open>1 .. parameter count\<close> returns \<open>SQLITE_RANGE\<close> (25)
    and binds nothing;
  \<^item> a text bound with a destructor other than \<open>SQLITE_TRANSIENT\<close> is kept as the
    caller's pointer, not copied;
  \<^item> binding the floating point value NaN binds NULL;
  \<^item> \<open>sqlite3_column_text\<close> returns the null pointer for a NULL value, a pointer to
    the decimal text for an integer, and for a floating point value a pointer to its
    text with 15 significant digits (the engine's format \<open>%!.15g\<close>);
    \<open>sqlite3_column_type\<close> returns the type code of the value (1 integer, 2 float,
    3 text, 5 null);
  \<^item> preparing the empty text succeeds with a null statement.
  \<open>echo_engine\<close> takes the longest string the host can build: \<open>UTF8ToString\<close> throws on
  a longer text. \<open>echo\<close> has no such bound; \<open>echo_short\<close> is the same engine under a host
  whose strings hold three bytes at most.
\<close>

datatype echo_value = EInteger int | EFloat jsnum | EText i32 | ECopy string

subsection \<open>Printing a floating point value\<close>

definition trim_zeros :: "string \<Rightarrow> string" where
  "trim_zeros ds =
     (let t = rev (dropWhile (\<lambda>c. c = CHR ''0'') (rev ds)) in if t = [] then ''0'' else t)"

text \<open>
  The decimal exponent of a positive value: the \<open>e\<close> with \<open>10 ^ e \<le> a < 10 ^ (e + 1)\<close>, found
  by scaling (the exponent of a double is below 400 in absolute value).
\<close>

fun leading_zeros :: "nat \<Rightarrow> rat \<Rightarrow> nat" where
  "leading_zeros 0 a = 0"
| "leading_zeros (Suc fuel) a = (if 1 \<le> a then 0 else Suc (leading_zeros fuel (a * 10)))"

fun integer_digits :: "nat \<Rightarrow> rat \<Rightarrow> nat" where
  "integer_digits 0 a = 0"
| "integer_digits (Suc fuel) a = (if a < 10 then 0 else Suc (integer_digits fuel (a / 10)))"

definition decimal_exponent :: "rat \<Rightarrow> int" where
  "decimal_exponent a =
     (if 1 \<le> a then int (integer_digits 400 a) else - int (leading_zeros 400 a))"

text \<open>The last \<open>k\<close> decimal digits of an integer.\<close>

definition digits :: "nat \<Rightarrow> int \<Rightarrow> string" where
  "digits k m = map (\<lambda>j. digit_char (nat ((m div 10 ^ j) mod 10))) (rev [0 ..< k])"

definition scale10 :: "rat \<Rightarrow> int \<Rightarrow> rat" where
  "scale10 a k = (if 0 \<le> k then a * 10 ^ nat k else a / 10 ^ nat (- k))"

definition print_positive :: "rat \<Rightarrow> string" where
  "print_positive a =
     (let e0 = decimal_exponent a;
          m0 = \<lfloor>scale10 a (14 - e0) + 1 / 2\<rfloor>;
          m = (if m0 = 10 ^ 15 then 10 ^ 14 else m0);
          e = (if m0 = 10 ^ 15 then e0 + 1 else e0);
          ds = digits 15 m
      in if e < - 4 \<or> 15 \<le> e then
           take 1 ds @ ''.'' @ trim_zeros (drop 1 ds) @ ''e'' @ (if e < 0 then ''-'' else ''+'')
             @ digits (if \<bar>e\<bar> < 100 then 2 else 3) \<bar>e\<bar>
         else if 0 \<le> e then
           take (nat e + 1) ds @ ''.'' @ trim_zeros (drop (nat e + 1) ds)
         else ''0.'' @ replicate (nat (- e) - 1) (CHR ''0'') @ trim_zeros ds)"

fun echo_print :: "jsnum \<Rightarrow> string" where
  "echo_print (Finite q) =
     (if q = 0 then ''0.0''
      else if q < 0 then CHR ''-'' # print_positive (- q)
      else print_positive q)"
| "echo_print NaN = []"
| "echo_print (Infinity b) = (if b then ''Inf'' else ''-Inf'')"

subsection \<open>The engine\<close>

record echo_state =
  next_free :: i32
  texts :: "(i32 \<times> string) list"
  cells :: "(i32 \<times> i32) list"
  param_count :: nat
  bound :: "(nat \<times> echo_value) list"
  steps :: nat

text \<open>
  Modelled from the spec: the engine's header, which defines these constants, is not in
  the repository. The glossary's transient bind is the destructor \<open>SQLITE_TRANSIENT\<close> of
  the engine's C interface, against \<open>SQLITE_STATIC\<close> for a buffer that the engine keeps
  pointing to; \<open>SQLITE_RANGE\<close> is the status of a bind whose index is out of range.
\<close>

definition SQLITE_RANGE :: i32 where "SQLITE_RANGE = 25"
definition SQLITE_TRANSIENT :: i32 where "SQLITE_TRANSIENT = - 1"
definition SQLITE_STATIC :: i32 where "SQLITE_STATIC = 0"

definition echo_db :: i32 where "echo_db = 4096"
definition echo_stmt :: i32 where "echo_stmt = 8192"

definition echo_init :: echo_state where
  "echo_init =
     \<lparr> next_free = 64, texts = [(8, ''?''), (16, ''not an error'')], cells = [],
       param_count = 0, bound = [], steps = 0 \<rparr>"

definition c_string :: "string \<Rightarrow> string" where
  "c_string t = takeWhile (\<lambda>c. c \<noteq> CHR 0x00) t"

definition echo_text :: "i32 \<Rightarrow> echo_state \<Rightarrow> string" where
  "echo_text p s = (case map_of (texts s) p of None \<Rightarrow> [] | Some t \<Rightarrow> c_string t)"

definition echo_read :: "nat option \<Rightarrow> i32 \<Rightarrow> echo_state \<Rightarrow> error + string" where
  "echo_read longest p s =
     (case longest of
        None \<Rightarrow> Inr (echo_text p s)
      | Some n \<Rightarrow>
          if n < length (echo_text p s) then Inl (Error ''Invalid string length'')
          else Inr (echo_text p s))"

definition echo_store :: "string \<Rightarrow> echo_state \<Rightarrow> i32 \<times> echo_state" where
  "echo_store t s =
     (next_free s,
      s\<lparr>next_free := next_free s + of_nat (length t) + 1,
        texts := (next_free s, t) # texts s\<rparr>)"

definition echo_bind :: "i32 \<Rightarrow> echo_value \<Rightarrow> echo_state \<Rightarrow> i32 \<times> echo_state" where
  "echo_bind i v s =
     (if 1 \<le> unat i \<and> unat i \<le> param_count s
      then (0, s\<lparr>bound := (unat i, v) # bound s\<rparr>)
      else (SQLITE_RANGE, s))"

definition echo_bind_double :: "i32 \<Rightarrow> jsnum \<Rightarrow> echo_state \<Rightarrow> i32 \<times> echo_state" where
  "echo_bind_double i x s =
     (if x = NaN then
        (if 1 \<le> unat i \<and> unat i \<le> param_count s
         then (0, s\<lparr>bound := filter (\<lambda>b. fst b \<noteq> unat i) (bound s)\<rparr>)
         else (SQLITE_RANGE, s))
      else echo_bind i (EFloat x) s)"

definition echo_bind_text :: "i32 \<Rightarrow> i32 \<Rightarrow> i32 \<Rightarrow> echo_state \<Rightarrow> i32 \<times> echo_state" where
  "echo_bind_text i p d s =
     echo_bind i (if d = SQLITE_TRANSIENT then ECopy (echo_text p s) else EText p) s"

definition echo_column_text :: "i32 \<Rightarrow> echo_state \<Rightarrow> i32 \<times> echo_state" where
  "echo_column_text i s =
     (case map_of (bound s) (unat i + 1) of
        None \<Rightarrow> (0, s)
      | Some (EInteger n) \<Rightarrow> echo_store (show_int n) s
      | Some (EFloat x) \<Rightarrow> echo_store (echo_print x) s
      | Some (EText p) \<Rightarrow> (p, s)
      | Some (ECopy t) \<Rightarrow> echo_store t s)"

definition echo_column_type :: "i32 \<Rightarrow> echo_state \<Rightarrow> i32" where
  "echo_column_type i s =
     (case map_of (bound s) (unat i + 1) of
        None \<Rightarrow> 5
      | Some (EInteger n) \<Rightarrow> 1
      | Some (EFloat x) \<Rightarrow> 2
      | Some (EText p) \<Rightarrow> 3
      | Some (ECopy t) \<Rightarrow> 3)"

definition echo_prepare :: "i32 \<Rightarrow> i32 \<Rightarrow> echo_state \<Rightarrow> i32 \<times> echo_state" where
  "echo_prepare sqlPtr out s =
     (let sql = echo_text sqlPtr s in
      if sql = [] then (0, s\<lparr>cells := (out, 0) # cells s\<rparr>)
      else (0, s\<lparr>cells := (out, echo_stmt) # cells s,
                 param_count := length (filter (\<lambda>c. c = CHR ''?'') sql),
                 bound := [], steps := 0\<rparr>))"

definition echo_step :: "echo_state \<Rightarrow> i32 \<times> echo_state" where
  "echo_step s = (if steps s = 0 then SQLITE_ROW else SQLITE_DONE, s\<lparr>steps := Suc (steps s)\<rparr>)"

definition echo_free :: "i32 \<Rightarrow> echo_state \<Rightarrow> echo_state" where
  "echo_free p s =
     s\<lparr>texts := filter (\<lambda>e. fst e \<noteq> p) (texts s), cells := filter (\<lambda>e. fst e \<noteq> p) (cells s)\<rparr>"

definition echo_engine :: "nat option \<Rightarrow> echo_state module" where
  "echo_engine longest =
     \<lparr> allocateUTF8 = echo_store,
       UTF8ToString = echo_read longest,
       getValue = (\<lambda>p s. case map_of (cells s) p of None \<Rightarrow> 0 | Some v \<Rightarrow> v),
       malloc = (\<lambda>n s. (next_free s, s\<lparr>next_free := next_free s + n\<rparr>)),
       free = echo_free,
       sqlite3_open = (\<lambda>f out s. (0, s\<lparr>cells := (out, echo_db) # cells s\<rparr>)),
       sqlite3_close = (\<lambda>db s. (0, s)),
       sqlite3_exec = (\<lambda>db sql cb arg err s. (0, s)),
       sqlite3_prepare_v2 = (\<lambda>db sql n out tl. echo_prepare sql out),
       sqlite3_step = (\<lambda>stmt. echo_step),
       sqlite3_finalize = (\<lambda>stmt s. (0, s\<lparr>param_count := 0, bound := []\<rparr>)),
       sqlite3_column_count = (\<lambda>stmt s. (of_nat (param_count s), s)),
       sqlite3_column_name = (\<lambda>stmt i s. (8, s)),
       sqlite3_column_type = (\<lambda>stmt i s. (echo_column_type i s, s)),
       sqlite3_column_text = (\<lambda>stmt. echo_column_text),
       sqlite3_bind_int = (\<lambda>stmt i v. echo_bind i (EInteger (sint v))),
       sqlite3_bind_int64 = (\<lambda>stmt i v. echo_bind i (EInteger (sint v))),
       sqlite3_bind_double = (\<lambda>stmt i x. echo_bind_double i x),
       sqlite3_bind_text = (\<lambda>stmt i p n d. echo_bind_text i p d),
       sqlite3_bind_blob = (\<lambda>stmt i p n d. echo_bind_text i p d),
       sqlite3_errmsg = (\<lambda>db s. (16, s)),
       sqlite3_changes = (\<lambda>db s. (0, s)) \<rparr>"

definition echo :: "echo_state module" where
  "echo = echo_engine None"

definition echo_short :: "echo_state module" where
  "echo_short = echo_engine (Some 3)"

text \<open>
  Two more variants: \<open>echo_named\<close> names the column of index \<open>i\<close> \<open>c\<close> followed by \<open>i\<close>
  (it stores the name and returns its address), where \<open>echo\<close> names every column \<open>?\<close>; and
  every step of \<open>echo_failing\<close> fails with the status 1 (\<open>SQLITE_ERROR\<close>).
\<close>

definition echo_named :: "echo_state module" where
  "echo_named = echo\<lparr>sqlite3_column_name := (\<lambda>stmt i. echo_store (''c'' @ show_nat (unat i)))\<rparr>"

definition echo_failing :: "echo_state module" where
  "echo_failing = echo\<lparr>sqlite3_step := (\<lambda>stmt s. (1, s))\<rparr>"

definition echo_conn :: SQLiteDatabase where
  "echo_conn = \<lparr>dbPtr = echo_db, closed = False\<rparr>"

section \<open>What is observed of a run\<close>

text \<open>The outcome and the log of a run that may not return.\<close>

definition returned :: "('a \<times> 's) option \<Rightarrow> 'a option" where
  "returned x = map_option fst x"

definition trace_of :: "('a \<times> 's traced) option \<Rightarrow> event list" where
  "trace_of x = (case x of None \<Rightarrow> [] | Some (r, s, tr) \<Rightarrow> tr)"

text \<open>
  The pointers the allocator handed out (\<open>allocateUTF8\<close>, \<open>_malloc\<close>), the pointers given
  back to it (\<open>_free\<close>), and the statement handles passed to \<open>sqlite3_finalize\<close>, each in
  the order of the calls.
\<close>

fun allocation_of :: "event \<Rightarrow> i32 list" where
  "allocation_of (Call_allocateUTF8 t p) = [p]"
| "allocation_of (Call_malloc n p) = [p]"
| "allocation_of _ = []"

fun release_of :: "event \<Rightarrow> i32 list" where
  "release_of (Call_free p) = [p]"
| "release_of _ = []"

fun finalize_of :: "event \<Rightarrow> i32 list" where
  "finalize_of (Call_finalize stmt rc) = [stmt]"
| "finalize_of _ = []"

definition allocated :: "event list \<Rightarrow> i32 list" where
  "allocated tr = concat (map allocation_of tr)"

definition freed :: "event list \<Rightarrow> i32 list" where
  "freed tr = concat (map release_of tr)"

definition finalize_calls :: "event list \<Rightarrow> i32 list" where
  "finalize_calls tr = concat (map finalize_of tr)"

text \<open>\<open>extends P tr tr'\<close>: the log \<open>tr'\<close> is \<open>tr\<close> followed by events that satisfy \<open>P\<close>.\<close>

definition extends :: "(event \<Rightarrow> bool) \<Rightarrow> event list \<Rightarrow> event list \<Rightarrow> bool" where
  "extends P tr tr' = (\<exists>evs. tr' = tr @ evs \<and> list_all P evs)"


text \<open>
  The calls made between a successful prepare and the finalize: the body of the inner
  \<open>try\<close> block of \<open>query\<close>. A text bind is there only with length \<open>-1\<close> and destructor 0.
\<close>

fun body_event :: "event \<Rightarrow> bool" where
  "body_event (Call_allocateUTF8 t p) = True"
| "body_event (Call_bind_int stmt i v rc) = True"
| "body_event (Call_bind_double stmt i x rc) = True"
| "body_event (Call_bind_text stmt i p n d rc) = (n = - 1 \<and> d = 0)"
| "body_event (Call_column_count stmt n) = True"
| "body_event (Call_column_name stmt i p t) = True"
| "body_event (Call_step stmt rc) = True"
| "body_event (Call_column_text stmt i p t) = True"
| "body_event (Call_errmsg db p) = True"
| "body_event _ = False"

text \<open>The statement that \<open>query\<close> prepares, when the prepare succeeds.\<close>

definition prepared_by ::
  "'s module \<Rightarrow> SQLiteDatabase \<Rightarrow> i32 \<Rightarrow> i32 \<Rightarrow> 's \<Rightarrow> i32 option" where
  "prepared_by E db sqlPtr stmtPtr s =
     (let (result, s1) = sqlite3_prepare_v2 E (dbPtr db) sqlPtr (- 1) stmtPtr 0 s;
          stmt = getValue E stmtPtr s1
      in if result = SQLITE_OK \<and> stmt \<noteq> 0 then Some stmt else None)"

definition prepared_statement ::
  "'s module \<Rightarrow> SQLiteDatabase \<Rightarrow> string \<Rightarrow> 's \<Rightarrow> i32 option" where
  "prepared_statement E db sql s =
     (if closed db then None
      else
        let (sqlPtr, s1) = allocateUTF8 E sql s;
            (stmtPtr, s2) = malloc E 4 s1
        in prepared_by E db sqlPtr stmtPtr s2)"


text \<open>
  What the log says about the binds: the index and the status of every bind call; the
  statement, the index and the signed value of every call of the 32-bit and of the
  64-bit integer entry point; the index, pointer, length and destructor of every text bind and of every
  blob bind; and the calls that read the engine-reported type tag.
\<close>

fun bind_result_of :: "event \<Rightarrow> (i32 \<times> i32) list" where
  "bind_result_of (Call_bind_int stmt i v rc) = [(i, rc)]"
| "bind_result_of (Call_bind_int64 stmt i v rc) = [(i, rc)]"
| "bind_result_of (Call_bind_double stmt i x rc) = [(i, rc)]"
| "bind_result_of (Call_bind_text stmt i p n d rc) = [(i, rc)]"
| "bind_result_of (Call_bind_blob stmt i p n d rc) = [(i, rc)]"
| "bind_result_of _ = []"

definition bind_results :: "event list \<Rightarrow> (i32 \<times> i32) list" where
  "bind_results tr = concat (map bind_result_of tr)"

fun int_bind_of :: "event \<Rightarrow> (i32 \<times> i32 \<times> int) list" where
  "int_bind_of (Call_bind_int stmt i v rc) = [(stmt, i, sint v)]"
| "int_bind_of _ = []"

definition int_binds :: "event list \<Rightarrow> (i32 \<times> i32 \<times> int) list" where
  "int_binds tr = concat (map int_bind_of tr)"

fun int64_bind_of :: "event \<Rightarrow> (i32 \<times> i32 \<times> int) list" where
  "int64_bind_of (Call_bind_int64 stmt i v rc) = [(stmt, i, sint v)]"
| "int64_bind_of _ = []"

definition int64_binds :: "event list \<Rightarrow> (i32 \<times> i32 \<times> int) list" where
  "int64_binds tr = concat (map int64_bind_of tr)"

fun text_bind_of :: "event \<Rightarrow> (i32 \<times> i32 \<times> i32 \<times> i32) list" where
  "text_bind_of (Call_bind_text stmt i p n d rc) = [(i, p, n, d)]"
| "text_bind_of _ = []"

definition text_binds :: "event list \<Rightarrow> (i32 \<times> i32 \<times> i32 \<times> i32) list" where
  "text_binds tr = concat (map text_bind_of tr)"

fun blob_bind_of :: "event \<Rightarrow> (i32 \<times> i32 \<times> i32 \<times> i32) list" where
  "blob_bind_of (Call_bind_blob stmt i p n d rc) = [(i, p, n, d)]"
| "blob_bind_of _ = []"

definition blob_binds :: "event list \<Rightarrow> (i32 \<times> i32 \<times> i32 \<times> i32) list" where
  "blob_binds tr = concat (map blob_bind_of tr)"

fun type_read_of :: "event \<Rightarrow> (i32 \<times> i32) list" where
  "type_read_of (Call_column_type stmt i tag) = [(i, tag)]"
| "type_read_of _ = []"


text \<open>
  The parameters \<open>bindParameters\<close> accepts, and the 1-based positions at which it
  issues a bind call: those of the parameters that are neither null nor undefined,
  \<open>i\<close> being the position before the head of the list.
\<close>

fun bindable :: "jsval \<Rightarrow> bool" where
  "bindable JNull = True"
| "bindable JUndefined = True"
| "bindable (JNumber x) = True"
| "bindable (JString t) = True"
| "bindable _ = False"

fun bound_positions :: "nat \<Rightarrow> jsval list \<Rightarrow> nat list" where
  "bound_positions i [] = []"
| "bound_positions i (p # ps) =
     (if p = JNull \<or> p = JUndefined then bound_positions (i + 1) ps
      else (i + 1) # bound_positions (i + 1) ps)"



text \<open>A parameter that is a string.\<close>

fun is_text :: "jsval \<Rightarrow> bool" where
  "is_text (JString t) = True"
| "is_text _ = False"

text \<open>A host value that is a string or null, and a row that holds only such values.\<close>

fun text_or_null :: "jsval \<Rightarrow> bool" where
  "text_or_null (JString t) = True"
| "text_or_null JNull = True"
| "text_or_null _ = False"

definition row_of_texts :: "row \<Rightarrow> bool" where
  "row_of_texts r = list_all (\<lambda>(name, v). text_or_null v) r"

text \<open>
  The classes of the calls in the body of the inner \<open>try\<close> block: the calls of
  \<open>bindParameters\<close>, and the calls that read the result after it.
\<close>

fun bind_event :: "event \<Rightarrow> bool" where
  "bind_event (Call_allocateUTF8 t p) = True"
| "bind_event (Call_bind_int stmt i v rc) = True"
| "bind_event (Call_bind_double stmt i x rc) = True"
| "bind_event (Call_bind_text stmt i p n d rc) = (n = - 1 \<and> d = 0)"
| "bind_event _ = False"

fun read_event :: "event \<Rightarrow> bool" where
  "read_event (Call_column_count stmt n) = True"
| "read_event (Call_column_name stmt i p t) = True"
| "read_event (Call_step stmt rc) = True"
| "read_event (Call_column_text stmt i p t) = True"
| "read_event (Call_errmsg db p) = True"
| "read_event _ = False"

fun is_step :: "event \<Rightarrow> bool" where
  "is_step (Call_step stmt rc) = True"
| "is_step _ = False"

fun is_text_read :: "event \<Rightarrow> bool" where
  "is_text_read (Call_column_text stmt i p t) = True"
| "is_text_read _ = False"

fun is_name_read :: "event \<Rightarrow> bool" where
  "is_name_read (Call_column_name stmt i p t) = True"
| "is_name_read _ = False"

fun is_text_bind :: "event \<Rightarrow> bool" where
  "is_text_bind (Call_bind_text stmt i p n d rc) = True"
| "is_text_bind _ = False"

text \<open>
  What the log says about the rows. The engine answers \<open>sqlite3_column_name\<close> with the
  name of a column of a statement, and \<open>sqlite3_column_text\<close> with the value of a column
  of the current row of a statement: null when the pointer it returns is null, and
  otherwise the string at that pointer. A call of \<open>sqlite3_step\<close> that returns
  \<open>SQLITE_ROW\<close> starts a row of its statement, and the values of the row are the answers
  to the calls of \<open>sqlite3_column_text\<close> on that statement that follow the step, up to
  the next call of another function. \<open>rows_read\<close> is the list of rows that the engine's
  answers amount to: each row is the object built by assigning, in the order of the
  calls, the value answered for a column index to the name answered for the same index
  (to \<open>undefined\<close> when no name was asked for that index).
\<close>

fun name_of :: "i32 \<Rightarrow> event \<Rightarrow> (i32 \<times> string) list" where
  "name_of stmt (Call_column_name stmt' i p (Inr name)) = (if stmt' = stmt then [(i, name)] else [])"
| "name_of stmt _ = []"

definition names_read :: "i32 \<Rightarrow> event list \<Rightarrow> (i32 \<times> string) list" where
  "names_read stmt tr = concat (map (name_of stmt) tr)"

definition name_at :: "(i32 \<times> string) list \<Rightarrow> i32 \<Rightarrow> string" where
  "name_at names i = (case map_of names i of None \<Rightarrow> ''undefined'' | Some name \<Rightarrow> name)"

fun text_read_of :: "i32 \<Rightarrow> event \<Rightarrow> (i32 \<times> jsval) list" where
  "text_read_of stmt (Call_column_text stmt' i p txt) =
     (if stmt' \<noteq> stmt then []
      else if p = 0 then [(i, JNull)]
      else case txt of Inr t \<Rightarrow> [(i, JString t)] | Inl e \<Rightarrow> [])"
| "text_read_of stmt _ = []"

definition texts_after :: "i32 \<Rightarrow> event list \<Rightarrow> (i32 \<times> jsval) list" where
  "texts_after stmt evs = concat (map (text_read_of stmt) (takeWhile is_text_read evs))"

definition build_row :: "bool \<times> row \<Rightarrow> (string \<times> jsval) list \<Rightarrow> bool \<times> row" where
  "build_row obj kvs = foldl (\<lambda>obj (k, v). set_property obj k v) obj kvs"

fun rows_of :: "(i32 \<Rightarrow> (i32 \<times> string) list) \<Rightarrow> event list \<Rightarrow> row list" where
  "rows_of names [] = []"
| "rows_of names (Call_step stmt rc # evs) =
     (if rc = SQLITE_ROW then
        [snd (build_row empty_object
                (map (\<lambda>(i, v). (name_at (names stmt) i, v)) (texts_after stmt evs)))]
      else []) @ rows_of names evs"
| "rows_of names (e # evs) = rows_of names evs"

definition rows_read :: "event list \<Rightarrow> row list" where
  "rows_read tr = rows_of (\<lambda>stmt. names_read stmt tr) tr"

text \<open>
  What the log says about the texts handed to the engine: a call of \<open>allocateUTF8\<close> on
  a text that is followed at once by a call of \<open>sqlite3_bind_text\<close> on the pointer it
  returned binds that text, as a NUL-terminated buffer. The triple holds the statement,
  the index and the text.
\<close>

fun texts_bound :: "event list \<Rightarrow> (i32 \<times> i32 \<times> string) list" where
  "texts_bound [] = []"
| "texts_bound [e] = []"
| "texts_bound (Call_allocateUTF8 t p # Call_bind_text stmt i q n d rc # evs) =
     (if q = p then [(stmt, i, t)] else []) @ texts_bound evs"
| "texts_bound (e # e' # evs) = texts_bound (e' # evs)"

text \<open>
  The parameters that \<open>bindParameters\<close> reaches: those before the first one that is not
  bindable. Among parameters, the integers and the texts with their 1-based positions,
  \<open>i\<close> being the position before the head of the list.
\<close>

definition reached :: "jsval list \<Rightarrow> jsval list" where
  "reached params = takeWhile bindable params"

fun integer_parameters :: "nat \<Rightarrow> jsval list \<Rightarrow> (nat \<times> jsnum) list" where
  "integer_parameters i [] = []"
| "integer_parameters i (JNumber x # ps) =
     (if Number_isInteger x then [(i + 1, x)] else []) @ integer_parameters (i + 1) ps"
| "integer_parameters i (p # ps) = integer_parameters (i + 1) ps"

fun text_parameters :: "nat \<Rightarrow> jsval list \<Rightarrow> (nat \<times> string) list" where
  "text_parameters i [] = []"
| "text_parameters i (JString t # ps) = (i + 1, t) # text_parameters (i + 1) ps"
| "text_parameters i (p # ps) = text_parameters (i + 1) ps"

text \<open>The log of \<open>bindParameters\<close> alone, \<open>i\<close> being the position before the first parameter.\<close>

definition bind_log :: "'s module \<Rightarrow> i32 \<Rightarrow> nat \<Rightarrow> jsval list \<Rightarrow> 's \<Rightarrow> event list" where
  "bind_log E stmt i ps s = snd (snd (bindParameters_from (traced E) stmt i ps (s, [])))"

text \<open>An engine whose texts the host can always build: \<open>UTF8ToString\<close> never throws.\<close>

definition reads_every_text :: "'s module \<Rightarrow> bool" where
  "reads_every_text E = (\<forall>p s. \<exists>t. UTF8ToString E p s = Inr t)"

section \<open>The log of a run\<close>

lemma traced_sel [simp]:
  "allocateUTF8 (traced E) = (\<lambda>t. record_call (allocateUTF8 E t) (Call_allocateUTF8 t))"
  "UTF8ToString (traced E) = (\<lambda>p st. UTF8ToString E p (fst st))"
  "getValue (traced E) = (\<lambda>p st. getValue E p (fst st))"
  "malloc (traced E) = (\<lambda>n. record_call (malloc E n) (Call_malloc n))"
  "free (traced E) = (\<lambda>p st. (free E p (fst st), snd st @ [Call_free p]))"
  "sqlite3_open (traced E) = (\<lambda>f out. record_call (sqlite3_open E f out) (Call_open f out))"
  "sqlite3_close (traced E) = (\<lambda>db. record_call (sqlite3_close E db) (Call_close db))"
  "sqlite3_exec (traced E) = (\<lambda>db sql cb arg err.
          record_call (sqlite3_exec E db sql cb arg err) (Call_exec db sql cb arg err))"
  "sqlite3_prepare_v2 (traced E) = (\<lambda>db sql n out tl.
          record_call (sqlite3_prepare_v2 E db sql n out tl) (Call_prepare_v2 db sql n out tl))"
  "sqlite3_step (traced E) = (\<lambda>stmt. record_call (sqlite3_step E stmt) (Call_step stmt))"
  "sqlite3_finalize (traced E) = (\<lambda>stmt. record_call (sqlite3_finalize E stmt) (Call_finalize stmt))"
  "sqlite3_column_count (traced E) = (\<lambda>stmt.
          record_call (sqlite3_column_count E stmt) (Call_column_count stmt))"
  "sqlite3_column_name (traced E) = (\<lambda>stmt i.
          record_text E (sqlite3_column_name E stmt i) (Call_column_name stmt i))"
  "sqlite3_column_type (traced E) = (\<lambda>stmt i.
          record_call (sqlite3_column_type E stmt i) (Call_column_type stmt i))"
  "sqlite3_column_text (traced E) = (\<lambda>stmt i.
          record_text E (sqlite3_column_text E stmt i) (Call_column_text stmt i))"
  "sqlite3_bind_int (traced E) = (\<lambda>stmt i v.
          record_call (sqlite3_bind_int E stmt i v) (Call_bind_int stmt i v))"
  "sqlite3_bind_int64 (traced E) = (\<lambda>stmt i v.
          record_call (sqlite3_bind_int64 E stmt i v) (Call_bind_int64 stmt i v))"
  "sqlite3_bind_double (traced E) = (\<lambda>stmt i v.
          record_call (sqlite3_bind_double E stmt i v) (Call_bind_double stmt i v))"
  "sqlite3_bind_text (traced E) = (\<lambda>stmt i p n d.
          record_call (sqlite3_bind_text E stmt i p n d) (Call_bind_text stmt i p n d))"
  "sqlite3_bind_blob (traced E) = (\<lambda>stmt i p n d.
          record_call (sqlite3_bind_blob E stmt i p n d) (Call_bind_blob stmt i p n d))"
  "sqlite3_errmsg (traced E) = (\<lambda>db. record_call (sqlite3_errmsg E db) (Call_errmsg db))"
  "sqlite3_changes (traced E) = (\<lambda>db. record_call (sqlite3_changes E db) (Call_changes db))"
  by (simp_all add: traced_def)

lemma record_call_pair [simp]:
  "record_call f ev (s, tr) = (fst (f s), snd (f s), tr @ [ev (fst (f s))])"
  by (simp add: record_call_def split: prod.split)

lemma record_text_pair [simp]:
  "record_text E f ev (s, tr) =
     (fst (f s), snd (f s), tr @ [ev (fst (f s)) (UTF8ToString E (fst (f s)) (snd (f s)))])"
  by (simp add: record_text_def split: prod.split)

lemma extends_refl [simp]: "extends P tr tr"
  by (simp add: extends_def)

lemma extends_step: "list_all P es \<Longrightarrow> extends P (tr @ es) tr' \<Longrightarrow> extends P tr tr'"
  by (auto simp: extends_def)

lemma extends_trans: "extends P tr tr1 \<Longrightarrow> extends P tr1 tr2 \<Longrightarrow> extends P tr tr2"
  by (auto simp: extends_def)

lemma returned_Some: "returned x = Some r \<Longrightarrow> \<exists>s. x = Some (r, s)"
  by (cases x) (auto simp: returned_def)

lemma trace_of_Some [simp]: "trace_of (Some (r, s, tr)) = tr"
  by (simp add: trace_of_def)

lemma try_finally_Some:
  "try_finally body c = Some (r, s') \<Longrightarrow> \<exists>s0. body = Some (r, s0) \<and> s' = c s0"
  by (cases body) (auto simp: try_finally_def)

subsection \<open>The classes of events\<close>

lemma bind_event_body: "bind_event e \<Longrightarrow> body_event e"
  by (cases e) simp_all

lemma read_event_body: "read_event e \<Longrightarrow> body_event e"
  by (cases e) simp_all

lemma bind_events_body: "list_all bind_event evs \<Longrightarrow> list_all body_event evs"
  by (simp add: list_all_iff bind_event_body)

lemma read_events_body: "list_all read_event evs \<Longrightarrow> list_all body_event evs"
  by (simp add: list_all_iff read_event_body)

lemma bind_event_not_read:
  "bind_event e \<Longrightarrow> \<not> is_step e \<and> \<not> is_name_read e \<and> \<not> is_text_read e"
  by (cases e) simp_all

lemma name_read_not_step: "is_name_read e \<Longrightarrow> \<not> is_step e \<and> read_event e"
  by (cases e) simp_all

lemma text_read_not_step:
  "is_text_read e \<Longrightarrow> \<not> is_step e \<and> \<not> is_name_read e \<and> read_event e"
  by (cases e) simp_all

lemma read_event_not_bind: "read_event e \<Longrightarrow> \<not> is_text_bind e \<and> \<not> bind_event e"
  by (cases e) simp_all

subsection \<open>The calls of \<open>bindParameters\<close>\<close>

lemma bindParameters_from_prefix:
  "bindParameters_from (traced E) stmt i ps (s, tr) =
     (fst (bindParameters_from (traced E) stmt i ps (s, [])),
      fst (snd (bindParameters_from (traced E) stmt i ps (s, []))),
      tr @ snd (snd (bindParameters_from (traced E) stmt i ps (s, []))))"
proof (induction ps arbitrary: i s tr)
  case Nil
  show ?case by simp
next
  case (Cons p ps)
  show ?case
  proof (cases p)
    case JNull
    then show ?thesis using Cons.IH [of "i + 1" s tr] by simp
  next
    case JUndefined
    then show ?thesis using Cons.IH [of "i + 1" s tr] by simp
  next
    case (JNumber x)
    show ?thesis
    proof (cases "Number_isInteger x")
      case True
      let ?rc = "fst (sqlite3_bind_int E stmt (of_nat (i + 1)) (ToInt32 x) s)"
      let ?s1 = "snd (sqlite3_bind_int E stmt (of_nat (i + 1)) (ToInt32 x) s)"
      let ?ev = "Call_bind_int stmt (of_nat (i + 1)) (ToInt32 x) ?rc"
      from Cons.IH [of "i + 1" ?s1 "tr @ [?ev]"] Cons.IH [of "i + 1" ?s1 "[?ev]"] JNumber True
      show ?thesis by (simp add: Let_def)
    next
      case False
      let ?rc = "fst (sqlite3_bind_double E stmt (of_nat (i + 1)) x s)"
      let ?s1 = "snd (sqlite3_bind_double E stmt (of_nat (i + 1)) x s)"
      let ?ev = "Call_bind_double stmt (of_nat (i + 1)) x ?rc"
      from Cons.IH [of "i + 1" ?s1 "tr @ [?ev]"] Cons.IH [of "i + 1" ?s1 "[?ev]"] JNumber False
      show ?thesis by (simp add: Let_def)
    qed
  next
    case (JString t)
    let ?p = "fst (allocateUTF8 E t s)"
    let ?s1 = "snd (allocateUTF8 E t s)"
    let ?rc = "fst (sqlite3_bind_text E stmt (of_nat (i + 1)) ?p (- 1) 0 ?s1)"
    let ?s2 = "snd (sqlite3_bind_text E stmt (of_nat (i + 1)) ?p (- 1) 0 ?s1)"
    let ?evs = "[Call_allocateUTF8 t ?p, Call_bind_text stmt (of_nat (i + 1)) ?p (- 1) 0 ?rc]"
    from Cons.IH [of "i + 1" ?s2 "tr @ ?evs"] Cons.IH [of "i + 1" ?s2 ?evs] JString
    show ?thesis by (simp add: Let_def)
  next
    case (JBoolean b)
    then show ?thesis by simp
  next
    case (JBigInt n)
    then show ?thesis by simp
  next
    case (JBytes bs)
    then show ?thesis by simp
  qed
qed

lemma bindParameters_from_simulates:
  "fst (bindParameters_from (traced E) stmt i ps (s, tr)) = fst (bindParameters_from E stmt i ps s) \<and>
   fst (snd (bindParameters_from (traced E) stmt i ps (s, tr))) = snd (bindParameters_from E stmt i ps s)"
proof (induction ps arbitrary: i s tr)
  case Nil
  show ?case by simp
next
  case (Cons p ps)
  show ?case by (cases p) (simp_all add: Let_def split_beta Cons.IH)
qed

lemma bindParameters_from_bind_events:
  "list_all bind_event (snd (snd (bindParameters_from (traced E) stmt i ps (s, []))))"
proof (induction ps arbitrary: i s)
  case Nil
  show ?case by simp
next
  case (Cons p ps)
  show ?case
  proof (cases p)
    case JNull
    then show ?thesis using Cons.IH [of "i + 1" s] by simp
  next
    case JUndefined
    then show ?thesis using Cons.IH [of "i + 1" s] by simp
  next
    case (JNumber x)
    then show ?thesis
      using Cons.IH [of "i + 1"]
      by (simp add: Let_def split_beta bindParameters_from_prefix [where tr = "[e]" for e])
  next
    case (JString t)
    then show ?thesis
      using Cons.IH [of "i + 1"]
      by (simp add: Let_def split_beta bindParameters_from_prefix [where tr = "[e, e']" for e e'])
  next
    case (JBoolean b)
    then show ?thesis by simp
  next
    case (JBigInt n)
    then show ?thesis by simp
  next
    case (JBytes bs)
    then show ?thesis by simp
  qed
qed

lemma bindParameters_from_extends:
  "extends body_event tr (snd (snd (bindParameters_from (traced E) stmt i ps (s, tr))))"
  unfolding extends_def
  by (subst bindParameters_from_prefix)
     (simp add: bind_events_body bindParameters_from_bind_events)

subsection \<open>The calls that read the result\<close>

lemma names_read_append [simp]: "names_read stmt (a @ b) = names_read stmt a @ names_read stmt b"
  by (simp add: names_read_def)

lemma names_read_simps [simp]:
  "names_read stmt [] = []" "names_read stmt (e # tr) = name_of stmt e @ names_read stmt tr"
  by (simp_all add: names_read_def)

lemma names_read_none: "list_all (\<lambda>e. \<not> is_name_read e) evs \<Longrightarrow> names_read stmt evs = []"
proof (induction evs)
  case Nil
  show ?case by simp
next
  case (Cons e evs)
  then show ?case by (cases e) simp_all
qed

lemma rows_of_skip: "list_all (\<lambda>e. \<not> is_step e) a \<Longrightarrow> rows_of names (a @ b) = rows_of names b"
proof (induction a)
  case Nil
  show ?case by simp
next
  case (Cons e a)
  then show ?case by (cases e) simp_all
qed

lemma rows_of_none: "list_all (\<lambda>e. \<not> is_step e) a \<Longrightarrow> rows_of names a = []"
  using rows_of_skip [of a names "[]"] by simp

lemma texts_after_reads:
  "list_all is_text_read reads \<Longrightarrow> \<not> is_text_read e \<Longrightarrow>
   texts_after stmt (reads @ e # evs) = concat (map (text_read_of stmt) reads)"
  by (simp add: texts_after_def takeWhile_append2 list_all_iff)

lemma build_row_Cons [simp]:
  "build_row obj ((k, v) # kvs) = build_row (set_property obj k v) kvs"
  by (simp add: build_row_def)

lemma build_row_Nil [simp]: "build_row obj [] = obj"
  by (simp add: build_row_def)

lemma column_keys: "map (column_key cols) [0 ..< length cols] = cols"
  by (rule nth_equalityI) (simp_all add: column_key_def)

text \<open>The index of a column, as the export receives it, names the column.\<close>

lemma column_indices_distinct:
  assumes "n \<le> 2 ^ 31"
  shows "distinct (map of_nat [0 ..< n] :: i32 list)"
proof -
  have "inj_on (of_nat :: nat \<Rightarrow> i32) (set [0 ..< n])"
  proof (rule inj_onI)
    fix x y
    assume "x \<in> set [0 ..< n]" and "y \<in> set [0 ..< n]"
      and eq: "(of_nat x :: i32) = of_nat y"
    with assms have "x < 2 ^ 32" and "y < 2 ^ 32" by simp_all
    then have "take_bit 32 x = x" and "take_bit 32 y = y"
      by (simp_all add: take_bit_nat_eq_self)
    with eq show "x = y"
      by (simp add: word_of_nat_eq_iff)
  qed
  then show ?thesis by (simp add: distinct_map)
qed

lemma name_at_zip:
  assumes "length cols = n" and "n \<le> 2 ^ 31" and "k < n"
  shows "name_at (zip (map of_nat [0 ..< n]) cols) (of_nat k :: i32) = cols ! k"
proof -
  have "map_of (zip (map of_nat [0 ..< n] :: i32 list) cols) (map of_nat [0 ..< n] ! k)
          = Some (cols ! k)"
    using assms column_indices_distinct [OF assms(2)]
    by (intro map_of_zip_nth) simp_all
  with assms(3) show ?thesis by (simp add: name_at_def)
qed

lemma column_names_log:
  "column_names (traced E) stmt idx cols (s, tr) = (r, s', tr') \<Longrightarrow>
   \<exists>evs. tr' = tr @ evs \<and> list_all is_name_read evs \<and>
     (\<forall>cols'. r = Inr cols' \<longrightarrow>
        (\<exists>names. cols' = cols @ names \<and> length names = length idx \<and>
           names_read stmt evs = zip (map of_nat idx) names))"
proof (induction idx arbitrary: cols s tr)
  case Nil
  then show ?case by auto
next
  case (Cons i idx)
  let ?p = "fst (sqlite3_column_name E stmt (of_nat i) s)"
  let ?s1 = "snd (sqlite3_column_name E stmt (of_nat i) s)"
  let ?ev = "Call_column_name stmt (of_nat i) ?p (UTF8ToString E ?p ?s1)"
  show ?case
  proof (cases "UTF8ToString E ?p ?s1")
    case (Inl e)
    with Cons.prems have "tr' = tr @ [?ev]" and "r = Inl e"
      by (simp_all add: split_beta)
    then show ?thesis by (intro exI [of _ "[?ev]"]) simp
  next
    case (Inr name)
    with Cons.prems
    have "column_names (traced E) stmt idx (cols @ [name]) (?s1, tr @ [?ev]) = (r, s', tr')"
      by (simp add: split_beta)
    from Cons.IH [OF this] obtain evs where
      evs: "tr' = (tr @ [?ev]) @ evs" "list_all is_name_read evs"
        "\<forall>cols'. r = Inr cols' \<longrightarrow>
           (\<exists>names. cols' = (cols @ [name]) @ names \<and> length names = length idx \<and>
              names_read stmt evs = zip (map of_nat idx) names)"
      by blast
    have "\<forall>cols'. r = Inr cols' \<longrightarrow>
           (\<exists>names. cols' = cols @ names \<and> length names = length (i # idx) \<and>
              names_read stmt (?ev # evs) = zip (map of_nat (i # idx)) names)"
    proof (intro allI impI)
      fix cols'
      assume "r = Inr cols'"
      with evs(3) obtain names where
        "cols' = (cols @ [name]) @ names" "length names = length idx"
        "names_read stmt evs = zip (map of_nat idx) names"
        by blast
      then show "\<exists>names. cols' = cols @ names \<and> length names = length (i # idx) \<and>
              names_read stmt (?ev # evs) = zip (map of_nat (i # idx)) names"
        using Inr by (intro exI [of _ "name # names"]) simp
    qed
    with evs(1,2) show ?thesis
      by (intro exI [of _ "?ev # evs"]) simp
  qed
qed

lemma column_value_traced:
  "column_value (traced E) stmt i (s, tr) =
     (fst (column_value E stmt i s), snd (column_value E stmt i s),
      tr @ [Call_column_text stmt (of_nat i) (fst (sqlite3_column_text E stmt (of_nat i) s))
              (UTF8ToString E (fst (sqlite3_column_text E stmt (of_nat i) s))
                 (snd (sqlite3_column_text E stmt (of_nat i) s)))])"
  by (simp add: column_value_def split: prod.splits)

lemma column_value_read:
  "fst (column_value E stmt i s) = Inr v \<Longrightarrow>
   text_read_of stmt
     (Call_column_text stmt (of_nat i) (fst (sqlite3_column_text E stmt (of_nat i) s))
        (UTF8ToString E (fst (sqlite3_column_text E stmt (of_nat i) s))
           (snd (sqlite3_column_text E stmt (of_nat i) s)))) = [(of_nat i, v)]"
  by (auto simp: column_value_def split_beta split: if_splits sum.splits)

lemma read_row_log:
  "read_row (traced E) stmt cols idx obj (s, tr) = (r, s', tr') \<Longrightarrow>
   \<exists>evs. tr' = tr @ evs \<and> list_all is_text_read evs \<and>
     (\<forall>row. r = Inr row \<longrightarrow>
        (\<exists>vals. length vals = length idx \<and>
           concat (map (text_read_of stmt) evs) = zip (map of_nat idx) vals \<and>
           row = snd (build_row obj (zip (map (column_key cols) idx) vals))))"
proof (induction idx arbitrary: obj s tr)
  case Nil
  then show ?case by auto
next
  case (Cons i idx)
  let ?p = "fst (sqlite3_column_text E stmt (of_nat i) s)"
  let ?s1 = "snd (sqlite3_column_text E stmt (of_nat i) s)"
  let ?ev = "Call_column_text stmt (of_nat i) ?p (UTF8ToString E ?p ?s1)"
  have s1: "snd (column_value E stmt i s) = ?s1"
    by (simp add: column_value_def split_beta)
  show ?case
  proof (cases "fst (column_value E stmt i s)")
    case (Inl e)
    with Cons.prems have "tr' = tr @ [?ev]" and "r = Inl e"
      by (simp_all add: column_value_traced)
    then show ?thesis by (intro exI [of _ "[?ev]"]) simp
  next
    case (Inr v)
    with Cons.prems
    have "read_row (traced E) stmt cols idx (set_property obj (column_key cols i) v)
            (?s1, tr @ [?ev]) = (r, s', tr')"
      by (simp add: column_value_traced s1)
    from Cons.IH [OF this] obtain evs where
      evs: "tr' = (tr @ [?ev]) @ evs" "list_all is_text_read evs"
        "\<forall>row. r = Inr row \<longrightarrow>
           (\<exists>vals. length vals = length idx \<and>
              concat (map (text_read_of stmt) evs) = zip (map of_nat idx) vals \<and>
              row = snd (build_row (set_property obj (column_key cols i) v)
                      (zip (map (column_key cols) idx) vals)))"
      by blast
    have v: "text_read_of stmt ?ev = [(of_nat i, v)]"
      using Inr by (rule column_value_read)
    have "\<forall>row. r = Inr row \<longrightarrow>
           (\<exists>vals. length vals = length (i # idx) \<and>
              concat (map (text_read_of stmt) (?ev # evs)) = zip (map of_nat (i # idx)) vals \<and>
              row = snd (build_row obj (zip (map (column_key cols) (i # idx)) vals)))"
    proof (intro allI impI)
      fix row
      assume "r = Inr row"
      with evs(3) obtain vals where
        "length vals = length idx"
        "concat (map (text_read_of stmt) evs) = zip (map of_nat idx) vals"
        "row = snd (build_row (set_property obj (column_key cols i) v)
                      (zip (map (column_key cols) idx) vals))"
        by blast
      then show "\<exists>vals. length vals = length (i # idx) \<and>
              concat (map (text_read_of stmt) (?ev # evs)) = zip (map of_nat (i # idx)) vals \<and>
              row = snd (build_row obj (zip (map (column_key cols) (i # idx)) vals))"
        using v by (intro exI [of _ "v # vals"]) simp
    qed
    with evs(1,2) show ?thesis
      by (intro exI [of _ "?ev # evs"]) simp
  qed
qed

lemma named_values:
  assumes "\<And>k. k < length cols \<Longrightarrow> name_at names (of_nat k) = cols ! k"
  shows "map (\<lambda>(i, v). (name_at names i, v)) (zip (map of_nat [0 ..< length cols]) vals)
           = zip (map (column_key cols) [0 ..< length cols]) vals"
proof -
  have "map (\<lambda>(i, v). (name_at names i, v)) (zip (map of_nat [0 ..< length cols]) vals)
          = zip (map (\<lambda>k. name_at names (of_nat k)) [0 ..< length cols]) vals"
    by (simp add: zip_map1 split_beta)
  also have "map (\<lambda>k. name_at names (of_nat k)) [0 ..< length cols]
               = map (column_key cols) [0 ..< length cols]"
    using assms by (simp add: column_key_def)
  finally show ?thesis .
qed

lemma getErrorMessage_traced:
  "getErrorMessage (traced E) db (s, tr) =
     (fst (getErrorMessage E db s), snd (getErrorMessage E db s),
      tr @ [Call_errmsg (dbPtr db) (fst (sqlite3_errmsg E (dbPtr db) s))])"
  by (simp add: getErrorMessage_def split: prod.splits)

lemma fetch_rows_log:
  "fetch_rows fuel (traced E) db stmt cols idx rows (s, tr) = Some (r, s', tr') \<Longrightarrow>
   idx = [0 ..< length cols] \<Longrightarrow>
   \<exists>rc evs. tr' = tr @ Call_step stmt rc # evs \<and> list_all read_event evs \<and>
     list_all (\<lambda>e. \<not> is_name_read e) evs \<and>
     (\<forall>rows' tail names. r = Inr rows' \<longrightarrow> list_all (\<lambda>e. \<not> is_step e) tail \<longrightarrow>
        (\<forall>k < length cols. name_at (names stmt) (of_nat k) = cols ! k) \<longrightarrow>
        rows' = rows @ rows_of names (Call_step stmt rc # evs @ tail))"
proof (induction fuel arbitrary: rows s tr)
  case 0
  then show ?case by simp
next
  case (Suc fuel)
  let ?rc = "fst (sqlite3_step E stmt s)"
  let ?s1 = "snd (sqlite3_step E stmt s)"
  let ?tr1 = "tr @ [Call_step stmt ?rc]"
  show ?case
  proof (cases "?rc = SQLITE_DONE")
    case True
    with Suc.prems have "tr' = ?tr1" and "r = Inr rows"
      by (simp_all add: Let_def)
    with True show ?thesis
      by (intro exI [of _ ?rc] exI [of _ "[]"])
         (simp add: rows_of_none SQLITE_DONE_def SQLITE_ROW_def)
  next
    case notdone: False
    show ?thesis
    proof (cases "?rc = SQLITE_ROW")
      case False
      let ?ev = "Call_errmsg (dbPtr db) (fst (sqlite3_errmsg E (dbPtr db) ?s1))"
      from False notdone Suc.prems
      have "tr' = ?tr1 @ [?ev]" and "\<exists>e. r = Inl e"
        by (auto simp: Let_def getErrorMessage_traced split: sum.splits)
      then show ?thesis
        by (intro exI [of _ ?rc] exI [of _ "[?ev]"]) auto
    next
      case True
      obtain rr s2 tr2 where
        rr: "read_row (traced E) stmt cols idx empty_object (?s1, ?tr1) = (rr, s2, tr2)"
        by (metis prod_cases3)
      from read_row_log [OF rr] obtain reads where
        reads: "tr2 = ?tr1 @ reads" "list_all is_text_read reads"
          "\<forall>row. rr = Inr row \<longrightarrow>
             (\<exists>vals. length vals = length idx \<and>
                concat (map (text_read_of stmt) reads) = zip (map of_nat idx) vals \<and>
                row = snd (build_row empty_object (zip (map (column_key cols) idx) vals)))"
        by blast
      have reads_read: "list_all read_event reads" "list_all (\<lambda>e. \<not> is_name_read e) reads"
        "list_all (\<lambda>e. \<not> is_step e) reads"
        using reads(2) by (simp_all add: list_all_iff text_read_not_step)
      show ?thesis
      proof (cases rr)
        case (Inl e)
        with True notdone Suc.prems rr have "tr' = tr2" and "r = Inl e"
          by (simp_all add: Let_def)
        with reads(1) reads_read show ?thesis
          by (intro exI [of _ ?rc] exI [of _ reads]) simp
      next
        case (Inr row)
        with True notdone Suc.prems rr
        have "fetch_rows fuel (traced E) db stmt cols idx (rows @ [row]) (s2, tr2)
                = Some (r, s', tr')"
          by (simp add: Let_def)
        from Suc.IH [OF this Suc.prems(2)] obtain rc2 evs2 where
          evs2: "tr' = tr2 @ Call_step stmt rc2 # evs2" "list_all read_event evs2"
            "list_all (\<lambda>e. \<not> is_name_read e) evs2"
            "\<forall>rows' tail names. r = Inr rows' \<longrightarrow> list_all (\<lambda>e. \<not> is_step e) tail \<longrightarrow>
               (\<forall>k < length cols. name_at (names stmt) (of_nat k) = cols ! k) \<longrightarrow>
               rows' = (rows @ [row]) @ rows_of names (Call_step stmt rc2 # evs2 @ tail)"
          by blast
        from reads(3) Inr Suc.prems(2) obtain vals where
          vals: "concat (map (text_read_of stmt) reads) = zip (map of_nat [0 ..< length cols]) vals"
            "row = snd (build_row empty_object
                     (zip (map (column_key cols) [0 ..< length cols]) vals))"
          by blast
        have "\<forall>rows' tail names. r = Inr rows' \<longrightarrow> list_all (\<lambda>e. \<not> is_step e) tail \<longrightarrow>
                (\<forall>k < length cols. name_at (names stmt) (of_nat k) = cols ! k) \<longrightarrow>
                rows' = rows @ rows_of names
                  (Call_step stmt ?rc # (reads @ Call_step stmt rc2 # evs2) @ tail)"
        proof (intro allI impI)
          fix rows' tail and names :: "i32 \<Rightarrow> (i32 \<times> string) list"
          assume "r = Inr rows'" and "list_all (\<lambda>e. \<not> is_step e) tail"
            and names: "\<forall>k < length cols. name_at (names stmt) (of_nat k) = cols ! k"
          with evs2(4)
          have 1: "rows' = (rows @ [row]) @ rows_of names (Call_step stmt rc2 # evs2 @ tail)"
            by blast
          have 2: "texts_after stmt (reads @ Call_step stmt rc2 # evs2 @ tail)
                     = concat (map (text_read_of stmt) reads)"
            using reads(2) by (rule texts_after_reads) simp
          have 3: "rows_of names (reads @ Call_step stmt rc2 # evs2 @ tail)
                     = rows_of names (Call_step stmt rc2 # evs2 @ tail)"
            using reads_read(3) by (rule rows_of_skip)
          have 4: "map (\<lambda>(i, v). (name_at (names stmt) i, v))
                     (zip (map of_nat [0 ..< length cols]) vals)
                   = zip (map (column_key cols) [0 ..< length cols]) vals"
            using names by (intro named_values) simp
          show "rows' = rows @ rows_of names
                  (Call_step stmt ?rc # (reads @ Call_step stmt rc2 # evs2) @ tail)"
            using True 1 2 3 4 vals by simp
        qed
        moreover have "tr' = tr @ Call_step stmt ?rc # (reads @ Call_step stmt rc2 # evs2)"
          using evs2(1) reads(1) by simp
        moreover have "list_all read_event (reads @ Call_step stmt rc2 # evs2)"
          using reads_read(1) evs2(2) by simp
        moreover have "list_all (\<lambda>e. \<not> is_name_read e) (reads @ Call_step stmt rc2 # evs2)"
          using reads_read(2) evs2(3) by simp
        ultimately show ?thesis
          by (intro exI [of _ ?rc] exI [of _ "reads @ Call_step stmt rc2 # evs2"]) blast
      qed
    qed
  qed
qed

lemma query_statement_log:
  assumes "query_statement fuel (traced E) db stmt params (s, tr) = Some (r, s', tr')"
  shows "\<exists>rest. tr' = tr @ snd (snd (bindParameters (traced E) stmt params (s, []))) @ rest \<and>
           list_all read_event rest \<and>
           (\<forall>rows tail. r = Inr rows \<longrightarrow>
              list_all (\<lambda>e. \<not> is_step e \<and> \<not> is_name_read e) tail \<longrightarrow>
              rows = rows_of (\<lambda>st. names_read st (rest @ tail)) (rest @ tail))"
proof -
  let ?bl = "snd (snd (bindParameters (traced E) stmt params (s, [])))"
  let ?rb = "fst (bindParameters (traced E) stmt params (s, []))"
  let ?sb = "fst (snd (bindParameters (traced E) stmt params (s, [])))"
  have b: "bindParameters (traced E) stmt params (s, tr) = (?rb, ?sb, tr @ ?bl)"
    using bindParameters_from_prefix [of E stmt 0 params s tr]
    by (simp add: bindParameters_def)
  show ?thesis
  proof (cases ?rb)
    case (Inl e)
    with assms b have "tr' = tr @ ?bl @ []" and "r = Inl e"
      by (simp_all add: query_statement_def)
    then show ?thesis by (intro exI [of _ "[]"]) simp
  next
    case (Inr u)
    let ?n = "fst (sqlite3_column_count E stmt ?sb)"
    let ?s2 = "snd (sqlite3_column_count E stmt ?sb)"
    let ?cc = "Call_column_count stmt ?n"
    let ?tr2 = "(tr @ ?bl) @ [?cc]"
    let ?idx = "[0 ..< nat (sint ?n)]"
    obtain rc s3 tr3 where
      c: "column_names (traced E) stmt ?idx [] (?s2, ?tr2) = (rc, s3, tr3)"
      by (metis prod_cases3)
    from column_names_log [OF c] obtain names where
      names: "tr3 = ?tr2 @ names" "list_all is_name_read names"
        "\<forall>cols'. rc = Inr cols' \<longrightarrow>
           (\<exists>ns. cols' = [] @ ns \<and> length ns = length ?idx \<and>
              names_read stmt names = zip (map of_nat ?idx) ns)"
      by blast
    have names_read: "list_all read_event names" "list_all (\<lambda>e. \<not> is_step e) names"
      using names(2) by (simp_all add: list_all_iff name_read_not_step)
    show ?thesis
    proof (cases rc)
      case (Inl e)
      with assms b Inr c have "tr' = tr3" and "r = Inl e"
        by (simp_all add: query_statement_def Let_def)
      with names(1) names_read(1) show ?thesis
        by (intro exI [of _ "?cc # names"]) simp
    next
      case rcInr: (Inr cols)
      with names(3) obtain ns where
        "cols = [] @ ns" "length ns = length ?idx"
        "names_read stmt names = zip (map of_nat ?idx) ns"
        by blast
      then have cols_eq: "names_read stmt names = zip (map of_nat [0 ..< length cols]) cols"
        and len: "length cols = nat (sint ?n)"
        by auto
      have "sint ?n < 2 ^ 31"
        using sint_lt [of ?n] by simp
      then have bound: "length cols \<le> 2 ^ 31"
        using len by simp
      have lookup: "\<forall>k < length cols.
          name_at (zip (map of_nat [0 ..< length cols]) cols) (of_nat k :: i32) = cols ! k"
        using name_at_zip [OF refl bound] by blast
      from assms b Inr c rcInr
      have f: "fetch_rows fuel (traced E) db stmt cols ?idx [] (s3, tr3) = Some (r, s', tr')"
        by (simp add: query_statement_def Let_def)
      have "?idx = [0 ..< length cols]" using len by simp
      from fetch_rows_log [OF f this] obtain rc2 evs where
        evs: "tr' = tr3 @ Call_step stmt rc2 # evs" "list_all read_event evs"
          "list_all (\<lambda>e. \<not> is_name_read e) evs"
          "\<forall>rows' tail names. r = Inr rows' \<longrightarrow> list_all (\<lambda>e. \<not> is_step e) tail \<longrightarrow>
             (\<forall>k < length cols. name_at (names stmt) (of_nat k) = cols ! k) \<longrightarrow>
             rows' = [] @ rows_of names (Call_step stmt rc2 # evs @ tail)"
        by blast
      let ?rest = "?cc # names @ Call_step stmt rc2 # evs"
      have 1: "tr' = tr @ ?bl @ ?rest"
        using evs(1) names(1) by simp
      have 2: "list_all read_event ?rest"
        using evs(2) names_read(1) by simp
      have 3: "\<forall>rows tail. r = Inr rows \<longrightarrow>
              list_all (\<lambda>e. \<not> is_step e \<and> \<not> is_name_read e) tail \<longrightarrow>
              rows = rows_of (\<lambda>st. names_read st (?rest @ tail)) (?rest @ tail)"
      proof (intro allI impI)
        fix rows tail
        assume r: "r = Inr rows"
          and tail: "list_all (\<lambda>e. \<not> is_step e \<and> \<not> is_name_read e) tail"
        from tail have t1: "list_all (\<lambda>e. \<not> is_step e) tail"
          and t2: "list_all (\<lambda>e. \<not> is_name_read e) tail"
          by (simp_all add: list_all_iff)
        let ?names = "\<lambda>st. names_read st (?rest @ tail)"
        have "?names stmt = zip (map of_nat [0 ..< length cols]) cols"
          using names_read_none [OF evs(3), of stmt] names_read_none [OF t2, of stmt] cols_eq
          by simp
        with lookup
        have n: "\<forall>k < length cols. name_at (?names stmt) (of_nat k) = cols ! k"
          by simp
        have "rows_of ?names (?rest @ tail)
                = rows_of ?names (names @ Call_step stmt rc2 # evs @ tail)"
          by simp
        also have "\<dots> = rows_of ?names (Call_step stmt rc2 # evs @ tail)"
          using names_read(2) by (rule rows_of_skip)
        also have "\<dots> = rows"
          using evs(4) r t1 n by simp
        finally show "rows = rows_of ?names (?rest @ tail)"
          by simp
      qed
      from 1 2 3 show ?thesis by (intro exI [of _ ?rest]) blast
    qed
  qed
qed

lemma query_statement_extends:
  assumes "query_statement fuel (traced E) db stmt params (s, tr) = Some (r, s', tr')"
  shows "extends body_event tr tr'"
proof -
  from query_statement_log [OF assms] obtain rest where
    "tr' = tr @ snd (snd (bindParameters (traced E) stmt params (s, []))) @ rest"
    "list_all read_event rest"
    by blast
  moreover have "list_all body_event (snd (snd (bindParameters (traced E) stmt params (s, []))))"
    by (simp add: bindParameters_def bind_events_body bindParameters_from_bind_events)
  ultimately show ?thesis
    by (simp add: extends_def read_events_body)
qed

subsection \<open>The log of \<open>query\<close>\<close>

lemma query_prepared_log:
  assumes "query_prepared fuel (traced E) db sqlPtr stmtPtr params (s, tr) = Some (r, s', tr')"
  shows "\<exists>rc mid. tr' = tr @ Call_prepare_v2 (dbPtr db) sqlPtr (- 1) stmtPtr 0 rc # mid \<and>
           (case prepared_by E db sqlPtr stmtPtr s of
              None \<Rightarrow> list_all read_event mid \<and> (\<forall>rows. r \<noteq> Inr rows)
            | Some stmt \<Rightarrow>
                (\<exists>s0 rest rc'.
                   mid = snd (snd (bindParameters (traced E) stmt params (s0, []))) @ rest
                           @ [Call_finalize stmt rc'] \<and>
                   list_all read_event rest \<and>
                   (\<forall>rows tail. r = Inr rows \<longrightarrow>
                      list_all (\<lambda>e. \<not> is_step e \<and> \<not> is_name_read e) tail \<longrightarrow>
                      rows = rows_of (\<lambda>st. names_read st (rest @ tail)) (rest @ tail))))"
proof -
  let ?rc = "fst (sqlite3_prepare_v2 E (dbPtr db) sqlPtr (- 1) stmtPtr 0 s)"
  let ?s1 = "snd (sqlite3_prepare_v2 E (dbPtr db) sqlPtr (- 1) stmtPtr 0 s)"
  let ?ev = "Call_prepare_v2 (dbPtr db) sqlPtr (- 1) stmtPtr 0 ?rc"
  let ?stmt = "getValue E stmtPtr ?s1"
  have pb: "prepared_by E db sqlPtr stmtPtr s =
              (if ?rc = SQLITE_OK \<and> ?stmt \<noteq> 0 then Some ?stmt else None)"
    by (simp add: prepared_by_def Let_def split: prod.splits)
  consider (fail) "?rc \<noteq> SQLITE_OK" | (null) "?rc = SQLITE_OK" "?stmt = 0"
    | (ok) "?rc = SQLITE_OK" "?stmt \<noteq> 0"
    by blast
  then show ?thesis
  proof cases
    case fail
    let ?em = "Call_errmsg (dbPtr db) (fst (sqlite3_errmsg E (dbPtr db) ?s1))"
    from fail assms
    have "tr' = tr @ ?ev # [?em]" and "\<forall>rows. r \<noteq> Inr rows"
      by (auto simp: query_prepared_def Let_def getErrorMessage_traced split: sum.splits)
    moreover from fail have "prepared_by E db sqlPtr stmtPtr s = None"
      by (simp add: pb)
    ultimately show ?thesis
      by (intro exI [of _ ?rc] exI [of _ "[?em]"]) simp
  next
    case null
    with assms have "tr' = tr @ ?ev # []" and "\<forall>rows. r \<noteq> Inr rows"
      by (auto simp: query_prepared_def Let_def)
    moreover from null have "prepared_by E db sqlPtr stmtPtr s = None"
      by (simp add: pb)
    ultimately show ?thesis
      by (intro exI [of _ ?rc] exI [of _ "[]"]) simp
  next
    case ok
    with assms
    have "try_finally (query_statement fuel (traced E) db ?stmt params (?s1, tr @ [?ev]))
            (\<lambda>st. snd (sqlite3_finalize (traced E) ?stmt st)) = Some (r, s', tr')"
      by (simp add: query_prepared_def Let_def)
    from try_finally_Some [OF this] obtain st0 where
      body: "query_statement fuel (traced E) db ?stmt params (?s1, tr @ [?ev]) = Some (r, st0)"
      and fin: "(s', tr') = snd (sqlite3_finalize (traced E) ?stmt st0)"
      by blast
    obtain s0 tr0 where st0: "st0 = (s0, tr0)" by (cases st0)
    let ?fin = "Call_finalize ?stmt (fst (sqlite3_finalize E ?stmt s0))"
    let ?bl = "snd (snd (bindParameters (traced E) ?stmt params (?s1, [])))"
    from fin st0 have tr': "tr' = tr0 @ [?fin]"
      by simp
    from query_statement_log [OF body [unfolded st0]] obtain rest where
      rest: "tr0 = (tr @ [?ev]) @ ?bl @ rest" "list_all read_event rest"
        "\<forall>rows tail. r = Inr rows \<longrightarrow>
           list_all (\<lambda>e. \<not> is_step e \<and> \<not> is_name_read e) tail \<longrightarrow>
           rows = rows_of (\<lambda>st. names_read st (rest @ tail)) (rest @ tail)"
      by blast
    from ok have some: "prepared_by E db sqlPtr stmtPtr s = Some ?stmt"
      by (simp add: pb)
    have "tr' = tr @ ?ev # (?bl @ rest @ [?fin])"
      using tr' rest(1) by simp
    moreover have "\<exists>s0 rest' rc'. ?bl @ rest @ [?fin]
         = snd (snd (bindParameters (traced E) ?stmt params (s0, []))) @ rest'
             @ [Call_finalize ?stmt rc'] \<and>
         list_all read_event rest' \<and>
         (\<forall>rows tail. r = Inr rows \<longrightarrow>
            list_all (\<lambda>e. \<not> is_step e \<and> \<not> is_name_read e) tail \<longrightarrow>
            rows = rows_of (\<lambda>st. names_read st (rest' @ tail)) (rest' @ tail))"
      using rest(2,3)
      by (intro exI [of _ ?s1] exI [of _ rest] exI [of _ "fst (sqlite3_finalize E ?stmt s0)"])
         simp
    ultimately show ?thesis
      using some by (intro exI [of _ ?rc] exI [of _ "?bl @ rest @ [?fin]"]) simp
  qed
qed

lemma query_log:
  assumes "query fuel (traced E) db sql params (s, tr) = Some (r, s', tr')"
    and "\<not> closed db"
  shows "\<exists>sqlPtr stmtPtr rc mid.
           tr' = tr @ [Call_allocateUTF8 sql sqlPtr, Call_malloc 4 stmtPtr,
                       Call_prepare_v2 (dbPtr db) sqlPtr (- 1) stmtPtr 0 rc]
                    @ mid @ [Call_free stmtPtr, Call_free sqlPtr] \<and>
           (case prepared_statement E db sql s of
              None \<Rightarrow> list_all read_event mid \<and> (\<forall>rows. r \<noteq> Inr rows)
            | Some stmt \<Rightarrow>
                (\<exists>s0 rest rc'.
                   mid = snd (snd (bindParameters (traced E) stmt params (s0, []))) @ rest
                           @ [Call_finalize stmt rc'] \<and>
                   list_all read_event rest \<and>
                   (\<forall>rows tail. r = Inr rows \<longrightarrow>
                      list_all (\<lambda>e. \<not> is_step e \<and> \<not> is_name_read e) tail \<longrightarrow>
                      rows = rows_of (\<lambda>st. names_read st (rest @ tail)) (rest @ tail))))"
proof -
  let ?sqlPtr = "fst (allocateUTF8 E sql s)"
  let ?s1 = "snd (allocateUTF8 E sql s)"
  let ?stmtPtr = "fst (malloc E 4 ?s1)"
  let ?s2 = "snd (malloc E 4 ?s1)"
  let ?tr2 = "tr @ [Call_allocateUTF8 sql ?sqlPtr, Call_malloc 4 ?stmtPtr]"
  from assms
  have "try_finally (query_prepared fuel (traced E) db ?sqlPtr ?stmtPtr params (?s2, ?tr2))
          (\<lambda>st. free (traced E) ?sqlPtr (free (traced E) ?stmtPtr st)) = Some (r, s', tr')"
    by (simp add: query_def Let_def)
  from try_finally_Some [OF this] obtain st0 where
    body: "query_prepared fuel (traced E) db ?sqlPtr ?stmtPtr params (?s2, ?tr2) = Some (r, st0)"
    and fin: "(s', tr') = free (traced E) ?sqlPtr (free (traced E) ?stmtPtr st0)"
    by blast
  obtain s0 tr0 where st0: "st0 = (s0, tr0)" by (cases st0)
  from fin st0 have tr': "tr' = tr0 @ [Call_free ?stmtPtr, Call_free ?sqlPtr]"
    by simp
  have ps: "prepared_statement E db sql s = prepared_by E db ?sqlPtr ?stmtPtr ?s2"
    using assms(2) by (simp add: prepared_statement_def split: prod.splits)
  from query_prepared_log [OF body [unfolded st0]] obtain rc mid where
    mid: "tr0 = ?tr2 @ Call_prepare_v2 (dbPtr db) ?sqlPtr (- 1) ?stmtPtr 0 rc # mid"
    and cls: "case prepared_by E db ?sqlPtr ?stmtPtr ?s2 of
              None \<Rightarrow> list_all read_event mid \<and> (\<forall>rows. r \<noteq> Inr rows)
            | Some stmt \<Rightarrow>
                (\<exists>s0 rest rc'.
                   mid = snd (snd (bindParameters (traced E) stmt params (s0, []))) @ rest
                           @ [Call_finalize stmt rc'] \<and>
                   list_all read_event rest \<and>
                   (\<forall>rows tail. r = Inr rows \<longrightarrow>
                      list_all (\<lambda>e. \<not> is_step e \<and> \<not> is_name_read e) tail \<longrightarrow>
                      rows = rows_of (\<lambda>st. names_read st (rest @ tail)) (rest @ tail)))"
    by blast
  have "tr' = tr @ [Call_allocateUTF8 sql ?sqlPtr, Call_malloc 4 ?stmtPtr,
                       Call_prepare_v2 (dbPtr db) ?sqlPtr (- 1) ?stmtPtr 0 rc]
                    @ mid @ [Call_free ?stmtPtr, Call_free ?sqlPtr]"
    using tr' mid by simp
  with cls ps show ?thesis
    by (intro exI [of _ ?sqlPtr] exI [of _ ?stmtPtr] exI [of _ rc] exI [of _ mid]) simp
qed

lemma bindParameters_bind_events:
  "list_all bind_event (snd (snd (bindParameters (traced E) stmt params (s, []))))"
  by (simp add: bindParameters_def bindParameters_from_bind_events)

lemma query_shape:
  assumes "query fuel (traced E) db sql params (s, tr) = Some (r, s', tr')"
    and "\<not> closed db"
  shows "\<exists>sqlPtr stmtPtr rc mid.
           tr' = tr @ [Call_allocateUTF8 sql sqlPtr, Call_malloc 4 stmtPtr,
                       Call_prepare_v2 (dbPtr db) sqlPtr (- 1) stmtPtr 0 rc]
                    @ mid @ [Call_free stmtPtr, Call_free sqlPtr] \<and>
           (case prepared_statement E db sql s of
              None \<Rightarrow> list_all body_event mid
            | Some stmt \<Rightarrow>
                (\<exists>evs rc'. mid = evs @ [Call_finalize stmt rc'] \<and> list_all body_event evs))"
proof -
  from query_log [OF assms] obtain sqlPtr stmtPtr rc mid where
    tr': "tr' = tr @ [Call_allocateUTF8 sql sqlPtr, Call_malloc 4 stmtPtr,
                       Call_prepare_v2 (dbPtr db) sqlPtr (- 1) stmtPtr 0 rc]
                    @ mid @ [Call_free stmtPtr, Call_free sqlPtr]"
    and cls: "case prepared_statement E db sql s of
              None \<Rightarrow> list_all read_event mid \<and> (\<forall>rows. r \<noteq> Inr rows)
            | Some stmt \<Rightarrow>
                (\<exists>s0 rest rc'.
                   mid = snd (snd (bindParameters (traced E) stmt params (s0, []))) @ rest
                           @ [Call_finalize stmt rc'] \<and>
                   list_all read_event rest \<and>
                   (\<forall>rows tail. r = Inr rows \<longrightarrow>
                      list_all (\<lambda>e. \<not> is_step e \<and> \<not> is_name_read e) tail \<longrightarrow>
                      rows = rows_of (\<lambda>st. names_read st (rest @ tail)) (rest @ tail)))"
    by blast
  have "case prepared_statement E db sql s of
              None \<Rightarrow> list_all body_event mid
            | Some stmt \<Rightarrow>
                (\<exists>evs rc'. mid = evs @ [Call_finalize stmt rc'] \<and> list_all body_event evs)"
  proof (cases "prepared_statement E db sql s")
    case None
    with cls show ?thesis by (simp add: read_events_body)
  next
    case (Some stmt)
    with cls obtain s0 rest rc' where
      mid: "mid = snd (snd (bindParameters (traced E) stmt params (s0, []))) @ rest
                    @ [Call_finalize stmt rc']"
      and rest: "list_all read_event rest"
      by auto
    have "list_all body_event (snd (snd (bindParameters (traced E) stmt params (s0, []))) @ rest)"
      using rest by (simp add: read_events_body bind_events_body bindParameters_bind_events)
    with mid Some show ?thesis
      by (simp add: exI [of _ "snd (snd (bindParameters (traced E) stmt params (s0, []))) @ rest"])
  qed
  with tr' show ?thesis by blast
qed

lemma query_rows_read:
  assumes "query fuel (traced E) db sql params (s, []) = Some (Inr rows, s', tr)"
  shows "rows = rows_read tr"
proof -
  from assms have open_conn: "\<not> closed db"
    by (auto simp: query_def split: if_splits)
  from query_log [OF assms open_conn] obtain sqlPtr stmtPtr rc mid where
    tr: "tr = [] @ [Call_allocateUTF8 sql sqlPtr, Call_malloc 4 stmtPtr,
                       Call_prepare_v2 (dbPtr db) sqlPtr (- 1) stmtPtr 0 rc]
                    @ mid @ [Call_free stmtPtr, Call_free sqlPtr]"
    and cls: "case prepared_statement E db sql s of
              None \<Rightarrow> list_all read_event mid \<and> (\<forall>rows'. Inr rows \<noteq> (Inr rows' :: error + row list))
            | Some stmt \<Rightarrow>
                (\<exists>s0 rest rc'.
                   mid = snd (snd (bindParameters (traced E) stmt params (s0, []))) @ rest
                           @ [Call_finalize stmt rc'] \<and>
                   list_all read_event rest \<and>
                   (\<forall>rows' tail. Inr rows = (Inr rows' :: error + row list) \<longrightarrow>
                      list_all (\<lambda>e. \<not> is_step e \<and> \<not> is_name_read e) tail \<longrightarrow>
                      rows' = rows_of (\<lambda>st. names_read st (rest @ tail)) (rest @ tail)))"
    by blast
  from cls obtain stmt s0 rest rc' where
    mid: "mid = snd (snd (bindParameters (traced E) stmt params (s0, []))) @ rest
                  @ [Call_finalize stmt rc']"
    and rows: "\<And>tail. list_all (\<lambda>e. \<not> is_step e \<and> \<not> is_name_read e) tail \<Longrightarrow>
                 rows = rows_of (\<lambda>st. names_read st (rest @ tail)) (rest @ tail)"
    by (cases "prepared_statement E db sql s") auto
  let ?bl = "snd (snd (bindParameters (traced E) stmt params (s0, [])))"
  let ?pre = "[Call_allocateUTF8 sql sqlPtr, Call_malloc 4 stmtPtr,
               Call_prepare_v2 (dbPtr db) sqlPtr (- 1) stmtPtr 0 rc] @ ?bl"
  let ?tail = "[Call_finalize stmt rc', Call_free stmtPtr, Call_free sqlPtr]"
  have bl: "list_all (\<lambda>e. \<not> is_step e) ?bl" "list_all (\<lambda>e. \<not> is_name_read e) ?bl"
    using bindParameters_bind_events [of E stmt params s0]
    by (simp_all add: list_all_iff bind_event_not_read)
  have pre: "list_all (\<lambda>e. \<not> is_step e) ?pre" "list_all (\<lambda>e. \<not> is_name_read e) ?pre"
    using bl by simp_all
  have split: "tr = ?pre @ (rest @ ?tail)"
    using tr mid by simp
  have "\<And>st. names_read st tr = names_read st (rest @ ?tail)"
    unfolding split using names_read_none [OF pre(2)] by (simp only: names_read_append) simp
  then have "(\<lambda>st. names_read st tr) = (\<lambda>st. names_read st (rest @ ?tail))"
    by (rule ext)
  moreover have "rows_of (\<lambda>st. names_read st (rest @ ?tail)) tr
                   = rows_of (\<lambda>st. names_read st (rest @ ?tail)) (rest @ ?tail)"
    unfolding split using pre(1) by (rule rows_of_skip)
  moreover have "rows = rows_of (\<lambda>st. names_read st (rest @ ?tail)) (rest @ ?tail)"
    by (rule rows) simp
  ultimately show ?thesis by (simp add: rows_read_def)
qed

lemma body_event_no_finalize: "list_all body_event evs \<Longrightarrow> finalize_calls evs = []"
proof (induction evs)
  case Nil
  show ?case by (simp add: finalize_calls_def)
next
  case (Cons e evs)
  then show ?case by (cases e) (simp_all add: finalize_calls_def)
qed

section \<open>The log does not change the run\<close>

text \<open>
  A run on \<open>traced E\<close> returns what the run on \<open>E\<close> returns and leaves the engine in the
  same state: what is proved of the logged run of \<open>query\<close> holds of the run itself.
\<close>

lemma column_names_simulates:
  "fst (column_names (traced E) stmt idx cols (s, tr)) = fst (column_names E stmt idx cols s) \<and>
   fst (snd (column_names (traced E) stmt idx cols (s, tr))) = snd (column_names E stmt idx cols s)"
  by (induction idx arbitrary: cols s tr) (simp_all add: split_beta split: sum.splits)

lemma read_row_simulates:
  "fst (read_row (traced E) stmt cols idx obj (s, tr)) = fst (read_row E stmt cols idx obj s) \<and>
   fst (snd (read_row (traced E) stmt cols idx obj (s, tr))) = snd (read_row E stmt cols idx obj s)"
proof (induction idx arbitrary: obj s tr)
  case Nil
  show ?case by simp
next
  case (Cons i idx)
  obtain v s1 where cv: "column_value E stmt i s = (v, s1)"
    by (cases "column_value E stmt i s")
  show ?case
    by (cases v) (simp_all add: column_value_traced cv Cons.IH)
qed

lemma fetch_rows_simulates:
  "map_option (\<lambda>(r, st). (r, fst st)) (fetch_rows fuel (traced E) db stmt cols idx rows (s, tr))
     = fetch_rows fuel E db stmt cols idx rows s"
proof (induction fuel arbitrary: rows s tr)
  case 0
  show ?case by simp
next
  case (Suc fuel)
  let ?rc = "fst (sqlite3_step E stmt s)"
  let ?s1 = "snd (sqlite3_step E stmt s)"
  let ?tr1 = "tr @ [Call_step stmt ?rc]"
  show ?case
  proof (cases "?rc = SQLITE_DONE")
    case True
    then show ?thesis by (simp add: Let_def split_beta)
  next
    case notdone: False
    show ?thesis
    proof (cases "?rc = SQLITE_ROW")
      case False
      with notdone show ?thesis
        by (simp add: Let_def split_beta getErrorMessage_traced split: sum.splits)
    next
      case True
      obtain rr s2 tr2 where
        rr: "read_row (traced E) stmt cols idx empty_object (?s1, ?tr1) = (rr, s2, tr2)"
        by (metis prod_cases3)
      with read_row_simulates [of E stmt cols idx empty_object ?s1 ?tr1]
      have plain: "read_row E stmt cols idx empty_object ?s1 = (rr, s2)"
        by (simp add: prod_eq_iff)
      show ?thesis
      proof (cases rr)
        case (Inl e)
        with True notdone rr plain show ?thesis by (simp add: Let_def split_beta)
      next
        case (Inr row)
        with True notdone rr plain Suc.IH [of "rows @ [row]" s2 tr2] show ?thesis
          by (simp add: Let_def split_beta)
      qed
    qed
  qed
qed

lemma query_statement_simulates:
  "map_option (\<lambda>(r, st). (r, fst st)) (query_statement fuel (traced E) db stmt params (s, tr))
     = query_statement fuel E db stmt params s"
proof -
  obtain rb sb trb where b: "bindParameters (traced E) stmt params (s, tr) = (rb, sb, trb)"
    by (metis prod_cases3)
  with bindParameters_from_simulates [of E stmt 0 params s tr]
  have plain: "bindParameters E stmt params s = (rb, sb)"
    by (simp add: bindParameters_def prod_eq_iff)
  show ?thesis
  proof (cases rb)
    case (Inl e)
    with b plain show ?thesis by (simp add: query_statement_def)
  next
    case (Inr u)
    let ?n = "fst (sqlite3_column_count E stmt sb)"
    let ?s2 = "snd (sqlite3_column_count E stmt sb)"
    let ?tr2 = "trb @ [Call_column_count stmt ?n]"
    let ?idx = "[0 ..< nat (sint ?n)]"
    obtain rc s3 tr3 where
      c: "column_names (traced E) stmt ?idx [] (?s2, ?tr2) = (rc, s3, tr3)"
      by (metis prod_cases3)
    with column_names_simulates [of E stmt ?idx "[]" ?s2 ?tr2]
    have plain_c: "column_names E stmt ?idx [] ?s2 = (rc, s3)"
      by (simp add: prod_eq_iff)
    show ?thesis
    proof (cases rc)
      case (Inl e)
      with b plain Inr c plain_c show ?thesis
        by (simp add: query_statement_def Let_def split_beta)
    next
      case cols: (Inr cols)
      with b plain Inr c plain_c fetch_rows_simulates [of fuel E db stmt cols ?idx "[]" s3 tr3]
      show ?thesis
        by (simp add: query_statement_def Let_def split_beta)
    qed
  qed
qed

lemma try_finally_simulates:
  assumes "map_option (\<lambda>(r, st). (r, fst st)) body' = body"
    and "\<And>st. fst (c' st) = c (fst st)"
  shows "map_option (\<lambda>(r, st). (r, fst st)) (try_finally body' c') = try_finally body c"
  using assms by (cases body') (auto simp: try_finally_def)

lemma query_prepared_simulates:
  "map_option (\<lambda>(r, st). (r, fst st))
     (query_prepared fuel (traced E) db sqlPtr stmtPtr params (s, tr))
     = query_prepared fuel E db sqlPtr stmtPtr params s"
proof -
  let ?rc = "fst (sqlite3_prepare_v2 E (dbPtr db) sqlPtr (- 1) stmtPtr 0 s)"
  let ?s1 = "snd (sqlite3_prepare_v2 E (dbPtr db) sqlPtr (- 1) stmtPtr 0 s)"
  let ?ev = "Call_prepare_v2 (dbPtr db) sqlPtr (- 1) stmtPtr 0 ?rc"
  let ?stmt = "getValue E stmtPtr ?s1"
  consider (fail) "?rc \<noteq> SQLITE_OK" | (null) "?rc = SQLITE_OK" "?stmt = 0"
    | (ok) "?rc = SQLITE_OK" "?stmt \<noteq> 0"
    by blast
  then show ?thesis
  proof cases
    case fail
    then show ?thesis
      by (simp add: query_prepared_def Let_def split_beta getErrorMessage_traced
            split: sum.splits)
  next
    case null
    then show ?thesis by (simp add: query_prepared_def Let_def split_beta)
  next
    case ok
    have "map_option (\<lambda>(r, st). (r, fst st))
            (try_finally (query_statement fuel (traced E) db ?stmt params (?s1, tr @ [?ev]))
               (\<lambda>st. snd (sqlite3_finalize (traced E) ?stmt st)))
          = try_finally (query_statement fuel E db ?stmt params ?s1)
               (\<lambda>s'. snd (sqlite3_finalize E ?stmt s'))"
    proof (rule try_finally_simulates)
      show "map_option (\<lambda>(r, st). (r, fst st))
              (query_statement fuel (traced E) db ?stmt params (?s1, tr @ [?ev]))
            = query_statement fuel E db ?stmt params ?s1"
        by (rule query_statement_simulates)
      fix st :: "'a traced"
      show "fst (snd (sqlite3_finalize (traced E) ?stmt st)) = snd (sqlite3_finalize E ?stmt (fst st))"
        by (cases st) simp
    qed
    with ok show ?thesis by (simp add: query_prepared_def Let_def split_beta)
  qed
qed

lemma query_simulates:
  "map_option (\<lambda>(r, st). (r, fst st)) (query fuel (traced E) db sql params (s, tr))
     = query fuel E db sql params s"
proof (cases "closed db")
  case True
  then show ?thesis by (simp add: query_def)
next
  case False
  let ?sqlPtr = "fst (allocateUTF8 E sql s)"
  let ?s1 = "snd (allocateUTF8 E sql s)"
  let ?stmtPtr = "fst (malloc E 4 ?s1)"
  let ?s2 = "snd (malloc E 4 ?s1)"
  let ?tr2 = "tr @ [Call_allocateUTF8 sql ?sqlPtr, Call_malloc 4 ?stmtPtr]"
  have "map_option (\<lambda>(r, st). (r, fst st))
          (try_finally (query_prepared fuel (traced E) db ?sqlPtr ?stmtPtr params (?s2, ?tr2))
             (\<lambda>st. free (traced E) ?sqlPtr (free (traced E) ?stmtPtr st)))
        = try_finally (query_prepared fuel E db ?sqlPtr ?stmtPtr params ?s2)
             (\<lambda>s'. free E ?sqlPtr (free E ?stmtPtr s'))"
  proof (rule try_finally_simulates)
    show "map_option (\<lambda>(r, st). (r, fst st))
            (query_prepared fuel (traced E) db ?sqlPtr ?stmtPtr params (?s2, ?tr2))
          = query_prepared fuel E db ?sqlPtr ?stmtPtr params ?s2"
      by (rule query_prepared_simulates)
    fix st :: "'a traced"
    show "fst (free (traced E) ?sqlPtr (free (traced E) ?stmtPtr st))
            = free E ?sqlPtr (free E ?stmtPtr (fst st))"
      by (cases st) simp
  qed
  with False show ?thesis by (simp add: query_def Let_def split_beta)
qed

lemma query_returned_simulates:
  "returned (query fuel (traced E) db sql params (s, tr)) = returned (query fuel E db sql params s)"
proof -
  have "returned (query fuel E db sql params s)
          = returned (map_option (\<lambda>(r, st). (r, fst st))
                        (query fuel (traced E) db sql params (s, tr)))"
    by (simp only: query_simulates)
  also have "\<dots> = returned (query fuel (traced E) db sql params (s, tr))"
    by (cases "query fuel (traced E) db sql params (s, tr)") (auto simp: returned_def)
  finally show ?thesis by simp
qed

section \<open>The calls of a bind\<close>

lemma bind_log_eq:
  "snd (snd (bindParameters (traced E) stmt params (s, []))) = bind_log E stmt 0 params s"
  by (simp add: bind_log_def bindParameters_def)

lemma bind_log_Nil [simp]: "bind_log E stmt i [] s = []"
  by (simp add: bind_log_def)

lemma bind_log_Cons:
  "bind_log E stmt i (p # ps) s =
     (case p of
        JNull \<Rightarrow> bind_log E stmt (i + 1) ps s
      | JUndefined \<Rightarrow> bind_log E stmt (i + 1) ps s
      | JNumber x \<Rightarrow>
          (if Number_isInteger x then
             Call_bind_int stmt (of_nat (i + 1)) (ToInt32 x)
               (fst (sqlite3_bind_int E stmt (of_nat (i + 1)) (ToInt32 x) s))
             # bind_log E stmt (i + 1) ps
                 (snd (sqlite3_bind_int E stmt (of_nat (i + 1)) (ToInt32 x) s))
           else
             Call_bind_double stmt (of_nat (i + 1)) x
               (fst (sqlite3_bind_double E stmt (of_nat (i + 1)) x s))
             # bind_log E stmt (i + 1) ps (snd (sqlite3_bind_double E stmt (of_nat (i + 1)) x s)))
      | JString t \<Rightarrow>
          Call_allocateUTF8 t (fst (allocateUTF8 E t s))
          # Call_bind_text stmt (of_nat (i + 1)) (fst (allocateUTF8 E t s)) (- 1) 0
              (fst (sqlite3_bind_text E stmt (of_nat (i + 1)) (fst (allocateUTF8 E t s)) (- 1) 0
                     (snd (allocateUTF8 E t s))))
          # bind_log E stmt (i + 1) ps
              (snd (sqlite3_bind_text E stmt (of_nat (i + 1)) (fst (allocateUTF8 E t s)) (- 1) 0
                     (snd (allocateUTF8 E t s))))
      | _ \<Rightarrow> [])"
  by (cases p)
     (simp_all add: bind_log_def Let_def split_beta
        bindParameters_from_prefix [where tr = "[e]" for e]
        bindParameters_from_prefix [where tr = "[e, e']" for e e'])

lemma reached_simps [simp]:
  "reached [] = []"
  "reached (p # ps) = (if bindable p then p # reached ps else [])"
  by (simp_all add: reached_def)

lemma reached_bindable: "list_all bindable ps \<Longrightarrow> reached ps = ps"
  by (simp add: reached_def list_all_iff)

lemma allocated_append [simp]: "allocated (a @ b) = allocated a @ allocated b"
  by (simp add: allocated_def)

lemma freed_append [simp]: "freed (a @ b) = freed a @ freed b"
  by (simp add: freed_def)

lemma allocated_simps [simp]:
  "allocated [] = []" "allocated (e # tr) = allocation_of e @ allocated tr"
  by (simp_all add: allocated_def)

lemma freed_simps [simp]:
  "freed [] = []" "freed (e # tr) = release_of e @ freed tr"
  by (simp_all add: freed_def)

lemma int_binds_append [simp]: "int_binds (a @ b) = int_binds a @ int_binds b"
  by (simp add: int_binds_def)

lemma int_binds_simps [simp]:
  "int_binds [] = []" "int_binds (e # tr) = int_bind_of e @ int_binds tr"
  by (simp_all add: int_binds_def)

lemma bind_results_append [simp]: "bind_results (a @ b) = bind_results a @ bind_results b"
  by (simp add: bind_results_def)

lemma bind_results_simps [simp]:
  "bind_results [] = []" "bind_results (e # tr) = bind_result_of e @ bind_results tr"
  by (simp_all add: bind_results_def)

lemma bind_log_allocated:
  "length (allocated (bind_log E stmt i ps s)) = length (filter is_text (reached ps))"
proof (induction ps arbitrary: i s)
  case Nil
  show ?case by simp
next
  case (Cons p ps)
  show ?case by (cases p) (simp_all add: bind_log_Cons Cons.IH)
qed

lemma bind_log_int_binds:
  "int_binds (bind_log E stmt i ps s)
     = map (\<lambda>(j, x). (stmt, of_nat j, sint (ToInt32 x))) (integer_parameters i (reached ps))"
proof (induction ps arbitrary: i s)
  case Nil
  show ?case by simp
next
  case (Cons p ps)
  show ?case by (cases p) (simp_all add: bind_log_Cons Cons.IH)
qed

lemma bind_log_texts_bound:
  "texts_bound (bind_log E stmt i ps s)
     = map (\<lambda>(j, t). (stmt, of_nat j, t)) (text_parameters i (reached ps))"
proof (induction ps arbitrary: i s)
  case Nil
  show ?case by simp
next
  case (Cons p ps)
  show ?case
  proof (cases p)
    case JNull
    then show ?thesis by (simp add: bind_log_Cons Cons.IH)
  next
    case JUndefined
    then show ?thesis by (simp add: bind_log_Cons Cons.IH)
  next
    case (JNumber x)
    have skip: "\<And>e evs. \<not> (\<exists>t q. e = Call_allocateUTF8 t q) \<Longrightarrow>
                  texts_bound (e # evs) = texts_bound evs"
    proof -
      fix e evs
      assume "\<not> (\<exists>t q. e = Call_allocateUTF8 t q)"
      then show "texts_bound (e # evs) = texts_bound evs"
        by (cases evs; cases e) simp_all
    qed
    from JNumber show ?thesis
      by (simp add: bind_log_Cons Cons.IH skip)
  next
    case (JString t)
    then show ?thesis by (simp add: bind_log_Cons Cons.IH)
  next
    case (JBoolean b)
    then show ?thesis by (simp add: bind_log_Cons)
  next
    case (JBigInt n)
    then show ?thesis by (simp add: bind_log_Cons)
  next
    case (JBytes bs)
    then show ?thesis by (simp add: bind_log_Cons)
  qed
qed

lemma bind_log_positions:
  "list_all bindable ps \<Longrightarrow>
   map fst (bind_results (bind_log E stmt i ps s)) = map of_nat (bound_positions i ps)"
proof (induction ps arbitrary: i s)
  case Nil
  show ?case by simp
next
  case (Cons p ps)
  then show ?case by (cases p) (simp_all add: bind_log_Cons)
qed

lemma bind_event_observed:
  "bind_event e \<Longrightarrow>
   release_of e = [] \<and> finalize_of e = [] \<and> int64_bind_of e = [] \<and> blob_bind_of e = [] \<and>
   type_read_of e = []"
  by (cases e) simp_all

lemma read_event_observed:
  "read_event e \<Longrightarrow>
   allocation_of e = [] \<and> release_of e = [] \<and> finalize_of e = [] \<and> int_bind_of e = [] \<and>
   int64_bind_of e = [] \<and> text_bind_of e = [] \<and> blob_bind_of e = [] \<and>
   bind_result_of e = [] \<and> type_read_of e = []"
  by (cases e) simp_all

lemma read_events_observed:
  "list_all read_event evs \<Longrightarrow>
   allocated evs = [] \<and> freed evs = [] \<and> int_binds evs = [] \<and> int64_binds evs = [] \<and>
   text_binds evs = [] \<and> bind_results evs = []"
proof (induction evs)
  case Nil
  show ?case by (simp add: int64_binds_def text_binds_def)
next
  case (Cons e evs)
  then show ?case
    using read_event_observed [of e] by (simp add: int64_binds_def text_binds_def)
qed

lemma bind_events_observed:
  "list_all bind_event evs \<Longrightarrow> freed evs = [] \<and> int64_binds evs = []"
proof (induction evs)
  case Nil
  show ?case by (simp add: int64_binds_def)
next
  case (Cons e evs)
  then show ?case
    using bind_event_observed [of e] by (simp add: int64_binds_def)
qed

text \<open>
  The log of a \<open>query\<close> that has prepared a statement, seen through the observations: the
  three calls before the bind, the calls of \<open>bindParameters\<close>, calls that read the
  result, the finalize, and the two releases.
\<close>

lemma query_log_observed:
  assumes "query fuel (traced E) db sql params (s, []) = Some (r, s', tr)"
    and "prepared_statement E db sql s = Some stmt"
  shows "\<exists>s0. int_binds tr = int_binds (bind_log E stmt 0 params s0) \<and>
           length (allocated tr) = 2 + length (allocated (bind_log E stmt 0 params s0)) \<and>
           length (freed tr) = 2 \<and> int64_binds tr = []"
proof -
  from assms(2) have open_conn: "\<not> closed db"
    by (auto simp: prepared_statement_def split: if_splits)
  from query_log [OF assms(1) open_conn] assms(2)
  obtain sqlPtr stmtPtr rc s0 rest rc' where
    tr: "tr = [] @ [Call_allocateUTF8 sql sqlPtr, Call_malloc 4 stmtPtr,
                  Call_prepare_v2 (dbPtr db) sqlPtr (- 1) stmtPtr 0 rc]
               @ (snd (snd (bindParameters (traced E) stmt params (s0, []))) @ rest
                    @ [Call_finalize stmt rc'])
               @ [Call_free stmtPtr, Call_free sqlPtr]"
    and rest: "list_all read_event rest"
    by auto
  note r = read_events_observed [OF rest]
  note b = bind_events_observed [OF bindParameters_bind_events [of E stmt params s0]]
  have "int_binds tr = int_binds (bind_log E stmt 0 params s0)"
    unfolding tr using r by (simp add: bind_log_eq)
  moreover have "length (allocated tr) = 2 + length (allocated (bind_log E stmt 0 params s0))"
    unfolding tr using r by (simp add: bind_log_eq)
  moreover have "length (freed tr) = 2"
    unfolding tr using r b by simp
  moreover have "int64_binds tr = []"
    unfolding tr using r b by (simp add: int64_binds_def)
  ultimately show ?thesis by blast
qed

section \<open>The statement is finalized exactly once\<close>

text \<open>
  Claim C4. When \<open>query\<close> has prepared a statement (the prepare call returned
  \<open>SQLITE_OK\<close> and wrote a handle that is not null), then on every path on which \<open>query\<close>
  returns, with rows, or with an error thrown by the bind, after a failed step, or by the
  decoding of a column name or of a column value, the log of the run holds exactly one
  call of \<open>sqlite3_finalize\<close>, and it is on that handle: the \<open>finally\<close> block of the inner
  \<open>try\<close> runs after every outcome of its body.
\<close>

theorem query_finalizes_exactly_once:
  assumes "returned (query fuel (traced E) db sql params (s, [])) = Some r"
    and "prepared_statement E db sql s = Some stmt"
  shows "finalize_calls (trace_of (query fuel (traced E) db sql params (s, []))) = [stmt]"
proof -
  from returned_Some [OF assms(1)] obtain s' tr where
    run: "query fuel (traced E) db sql params (s, []) = Some (r, s', tr)"
    by (metis prod.exhaust)
  from assms(2) have open_conn: "\<not> closed db"
    by (auto simp: prepared_statement_def split: if_splits)
  from query_shape [OF run open_conn] assms(2)
  obtain sqlPtr stmtPtr rc evs rc' where
    tr: "tr = [] @ [Call_allocateUTF8 sql sqlPtr, Call_malloc 4 stmtPtr,
                  Call_prepare_v2 (dbPtr db) sqlPtr (- 1) stmtPtr 0 rc]
               @ (evs @ [Call_finalize stmt rc']) @ [Call_free stmtPtr, Call_free sqlPtr]"
    and evs: "list_all body_event evs"
    by auto
  have "finalize_calls tr = finalize_calls evs @ [stmt]"
    unfolding tr by (simp add: finalize_calls_def)
  with body_event_no_finalize [OF evs] run show ?thesis by simp
qed

theorem query_finalizes_exactly_once_witness:
  "returned (query 2 (traced echo) echo_conn ''SELECT ?'' [JBoolean True] (echo_init, []))
     = Some (Inl (Error ''Unsupported parameter type: boolean'')) \<and>
   returned (query 2 (traced echo) echo_conn ''SELECT ?'' [JNumber (Finite 5)] (echo_init, []))
     = Some (Inr [[(''?'', JString ''5'')]]) \<and>
   returned (query 2 (traced echo_failing) echo_conn ''SELECT ?'' [JString ''a''] (echo_init, []))
     = Some (Inl (Error ''Step failed: not an error'')) \<and>
   returned (query 2 (traced echo_short) echo_conn ''SELECT ?'' [JString ''abcd''] (echo_init, []))
     = Some (Inl (Error ''Invalid string length'')) \<and>
   prepared_statement echo echo_conn ''SELECT ?'' echo_init = Some echo_stmt \<and>
   prepared_statement echo_failing echo_conn ''SELECT ?'' echo_init = Some echo_stmt \<and>
   prepared_statement echo_short echo_conn ''SELECT ?'' echo_init = Some echo_stmt \<and>
   finalize_calls (trace_of
     (query 2 (traced echo) echo_conn ''SELECT ?'' [JBoolean True] (echo_init, []))) = [echo_stmt] \<and>
   finalize_calls (trace_of
     (query 2 (traced echo) echo_conn ''SELECT ?'' [JNumber (Finite 5)] (echo_init, []))) = [echo_stmt] \<and>
   finalize_calls (trace_of
     (query 2 (traced echo_failing) echo_conn ''SELECT ?'' [JString ''a''] (echo_init, [])))
     = [echo_stmt] \<and>
   finalize_calls (trace_of
     (query 2 (traced echo_short) echo_conn ''SELECT ?'' [JString ''abcd''] (echo_init, [])))
     = [echo_stmt]"
proof -
  have bad: "returned (query 2 (traced echo) echo_conn ''SELECT ?'' [JBoolean True] (echo_init, []))
     = Some (Inl (Error ''Unsupported parameter type: boolean''))"
    by code_simp
  have good: "returned (query 2 (traced echo) echo_conn ''SELECT ?'' [JNumber (Finite 5)] (echo_init, []))
     = Some (Inr [[(''?'', JString ''5'')]])"
    by code_simp
  have failed: "returned (query 2 (traced echo_failing) echo_conn ''SELECT ?'' [JString ''a'']
                  (echo_init, []))
     = Some (Inl (Error ''Step failed: not an error''))"
    by code_simp
  have thrown: "returned (query 2 (traced echo_short) echo_conn ''SELECT ?'' [JString ''abcd'']
                  (echo_init, []))
     = Some (Inl (Error ''Invalid string length''))"
    by code_simp
  have prep: "prepared_statement echo echo_conn ''SELECT ?'' echo_init = Some echo_stmt"
    by code_simp
  have prep_short: "prepared_statement echo_short echo_conn ''SELECT ?'' echo_init = Some echo_stmt"
    by code_simp
  have prep_failing:
    "prepared_statement echo_failing echo_conn ''SELECT ?'' echo_init = Some echo_stmt"
    by code_simp
  from query_finalizes_exactly_once [OF bad prep] query_finalizes_exactly_once [OF good prep]
    query_finalizes_exactly_once [OF failed prep_failing]
    query_finalizes_exactly_once [OF thrown prep_short]
    bad good failed thrown prep prep_failing prep_short
  show ?thesis by simp
qed

section \<open>A row holds strings and nulls\<close>

lemma replace_property_texts:
  "row_of_texts r \<Longrightarrow> text_or_null v \<Longrightarrow> row_of_texts (replace_property k v r)"
  by (induction r) (auto simp: row_of_texts_def)

lemma insert_property_texts:
  "row_of_texts r \<Longrightarrow> text_or_null v \<Longrightarrow> row_of_texts (insert_property k v r)"
  by (induction r) (auto simp: row_of_texts_def split: option.splits)

lemma put_property_texts:
  "row_of_texts r \<Longrightarrow> text_or_null v \<Longrightarrow> row_of_texts (put_property k v r)"
  by (simp add: put_property_def replace_property_texts insert_property_texts)

lemma set_property_texts:
  "row_of_texts (snd obj) \<Longrightarrow> text_or_null v \<Longrightarrow> row_of_texts (snd (set_property obj k v))"
  by (simp add: set_property_def put_property_texts)

lemma build_row_texts:
  "row_of_texts (snd obj) \<Longrightarrow> list_all (\<lambda>(k, v). text_or_null v) kvs \<Longrightarrow>
   row_of_texts (snd (build_row obj kvs))"
proof (induction kvs arbitrary: obj)
  case Nil
  then show ?case by simp
next
  case (Cons kv kvs)
  obtain k v where kv: "kv = (k, v)" by (cases kv)
  from Cons.prems kv have "row_of_texts (snd (set_property obj k v))"
    by (simp add: set_property_texts)
  moreover from Cons.prems have "list_all (\<lambda>(k, v). text_or_null v) kvs" by simp
  ultimately show ?case using Cons.IH kv by simp
qed

lemma text_read_of_texts: "list_all (\<lambda>(i, v). text_or_null v) (text_read_of stmt e)"
  by (cases e) (simp_all split: sum.splits)

lemma texts_after_texts: "list_all (\<lambda>(i, v). text_or_null v) (texts_after stmt evs)"
  by (simp add: texts_after_def list_all_iff)
     (metis (no_types, lifting) list_all_iff text_read_of_texts)

lemma named_texts:
  "list_all (\<lambda>(i, v). text_or_null v) ivs \<Longrightarrow>
   list_all (\<lambda>(k, v). text_or_null v) (map (\<lambda>(i, v). (name_at names i, v)) ivs)"
  by (induction ivs) auto

lemma rows_of_texts: "list_all row_of_texts (rows_of names evs)"
proof (induction evs)
  case Nil
  show ?case by simp
next
  case (Cons e evs)
  have "\<And>stmt. row_of_texts (snd (build_row empty_object
          (map (\<lambda>(i, v). (name_at (names stmt) i, v)) (texts_after stmt evs))))"
    by (rule build_row_texts)
       (simp_all add: empty_object_def row_of_texts_def named_texts texts_after_texts)
  with Cons show ?case by (cases e) simp_all
qed

lemma text_or_null_iff: "text_or_null v = ((\<exists>t. v = JString t) \<or> v = JNull)"
  by (cases v) simp_all

text \<open>
  Claim C10. When \<open>query\<close> returns rows, they are the rows that the engine's answers in
  the log amount to (\<open>rows_read\<close>): the value under a column's name is null exactly when
  \<open>sqlite3_column_text\<close> returned the null pointer for that column of the current row,
  and otherwise it is the string that \<open>UTF8ToString\<close> read at the pointer returned. So
  every value of every row is a string or null, never a number, a boolean or a byte
  array.
\<close>

theorem query_values_are_text_or_null:
  assumes "returned (query fuel (traced E) db sql params (s, [])) = Some (Inr rows)"
  shows "rows = rows_read (trace_of (query fuel (traced E) db sql params (s, []))) \<and>
         (\<forall>row \<in> set rows. \<forall>(name, v) \<in> set row. (\<exists>t. v = JString t) \<or> v = JNull)"
proof -
  from returned_Some [OF assms] obtain s' tr where
    run: "query fuel (traced E) db sql params (s, []) = Some (Inr rows, s', tr)"
    by (metis prod.exhaust)
  then have rows: "rows = rows_read tr" by (rule query_rows_read)
  have "list_all row_of_texts (rows_read tr)"
    by (simp add: rows_read_def rows_of_texts)
  with rows have "\<forall>row \<in> set rows. \<forall>(name, v) \<in> set row. (\<exists>t. v = JString t) \<or> v = JNull"
    by (simp add: list_all_iff row_of_texts_def text_or_null_iff)
  with rows run show ?thesis by simp
qed

theorem query_values_are_text_or_null_witness:
  "returned (query 2 (traced echo_named) echo_conn ''SELECT ?, ?'' [JString ''a'', JNull]
      (echo_init, []))
     = Some (Inr [[(''c0'', JString ''a''), (''c1'', JNull)]]) \<and>
   rows_read (trace_of (query 2 (traced echo_named) echo_conn ''SELECT ?, ?'' [JString ''a'', JNull]
     (echo_init, []))) = [[(''c0'', JString ''a''), (''c1'', JNull)]] \<and>
   list_all (list_all (\<lambda>(name, v). (\<exists>t. v = JString t) \<or> v = JNull))
     [[(''c0'', JString ''a''), (''c1'', JNull)]]"
proof -
  have run: "returned (query 2 (traced echo_named) echo_conn ''SELECT ?, ?'' [JString ''a'', JNull]
      (echo_init, []))
     = Some (Inr [[(''c0'', JString ''a''), (''c1'', JNull)]])"
    by code_simp
  have rows: "rows_read (trace_of (query 2 (traced echo_named) echo_conn ''SELECT ?, ?''
     [JString ''a'', JNull] (echo_init, []))) = [[(''c0'', JString ''a''), (''c1'', JNull)]]"
    using conjunct1 [OF query_values_are_text_or_null [OF run]] by (rule sym)
  have "list_all (list_all (\<lambda>(name, v). (\<exists>t. v = JString t) \<or> v = JNull))
     [[(''c0'', JString ''a''), (''c1'', JNull)]]"
    by simp
  with run rows show ?thesis by blast
qed

section \<open>Allocations and their release\<close>

text \<open>
  Claim C1, at the input \<open>db.query('SELECT ?', ['a'])\<close>. The run allocates three
  buffers (the SQL text, the statement cell and the text of the parameter) and releases
  two: the buffer that \<open>bindParameters\<close> obtains from \<open>allocateUTF8\<close> for a string
  parameter is never freed, so the allocation count after \<open>query\<close> is one above its
  count before. The source says so at the bind: "we're leaking strPtr here".
\<close>

theorem query_text_parameter_is_not_released:
  "returned (query 2 (traced echo) echo_conn ''SELECT ?'' [JString ''a''] (echo_init, []))
     = Some (Inr [[(''?'', JString ''a'')]]) \<and>
   allocated (trace_of (query 2 (traced echo) echo_conn ''SELECT ?'' [JString ''a''] (echo_init, [])))
     = [64, 73, 77] \<and>
   freed (trace_of (query 2 (traced echo) echo_conn ''SELECT ?'' [JString ''a''] (echo_init, [])))
     = [73, 64]"
  by code_simp

lemma reads_every_text_Inr:
  "reads_every_text E \<Longrightarrow> \<exists>t. UTF8ToString E p s = Inr t"
  by (simp add: reads_every_text_def)

lemma exec_trace:
  assumes "reads_every_text E"
  shows "snd (snd (exec (traced E) db sql (s, tr))) =
     (if closed db then tr
      else
        let sqlPtr = fst (allocateUTF8 E sql s);
            s1 = snd (allocateUTF8 E sql s);
            errMsgPtr = fst (malloc E 4 s1);
            s2 = snd (malloc E 4 s1);
            rc = fst (sqlite3_exec E (dbPtr db) sqlPtr 0 0 errMsgPtr s2)
        in tr @ [Call_allocateUTF8 sql sqlPtr, Call_malloc 4 errMsgPtr,
                 Call_exec (dbPtr db) sqlPtr 0 0 errMsgPtr rc,
                 Call_free errMsgPtr, Call_free sqlPtr])"
proof -
  let ?sqlPtr = "fst (allocateUTF8 E sql s)"
  let ?s1 = "snd (allocateUTF8 E sql s)"
  let ?errMsgPtr = "fst (malloc E 4 ?s1)"
  let ?s2 = "snd (malloc E 4 ?s1)"
  let ?s3 = "snd (sqlite3_exec E (dbPtr db) ?sqlPtr 0 0 ?errMsgPtr ?s2)"
  from reads_every_text_Inr [OF assms] obtain t where
    "UTF8ToString E (getValue E ?errMsgPtr ?s3) ?s3 = Inr t"
    by blast
  then show ?thesis
    by (simp add: exec_def Let_def split_beta)
qed

text \<open>
  \<open>exec\<close>, for every engine whose message the host can read, on both of its paths
  (success and SQL error): it frees the buffers it allocated, each once, in the reverse
  order of their allocation. (When the read of the message throws, the error cell is
  not freed: the call of \<open>_free\<close> comes after the read and is not in a \<open>finally\<close> block.)
\<close>

theorem exec_releases_its_allocations:
  assumes "reads_every_text E"
  shows "freed (snd (snd (exec (traced E) db sql (s, [])))) =
           rev (allocated (snd (snd (exec (traced E) db sql (s, [])))))"
  by (simp add: exec_trace [OF assms] Let_def)

lemma reads_every_text_echo: "reads_every_text echo"
  by (simp add: reads_every_text_def echo_def echo_engine_def echo_read_def)

theorem exec_releases_its_allocations_witness:
  "reads_every_text echo \<and>
   allocated (snd (snd (exec (traced echo) echo_conn ''SELECT 1'' (echo_init, [])))) = [64, 73] \<and>
   freed (snd (snd (exec (traced echo) echo_conn ''SELECT 1'' (echo_init, [])))) = [73, 64]"
proof -
  have a: "allocated (snd (snd (exec (traced echo) echo_conn ''SELECT 1'' (echo_init, []))))
             = [64, 73]"
    by code_simp
  from exec_releases_its_allocations [OF reads_every_text_echo,
      of echo_conn "''SELECT 1''" echo_init] a reads_every_text_echo
  show ?thesis by simp
qed

text \<open>
  \<open>query\<close>, for every engine: when it has prepared a statement, its parameters are all
  bindable and it returns, the buffers it allocated outnumber the buffers it freed by
  the number of string parameters. With no string parameter the counts are equal.
\<close>

theorem query_keeps_one_buffer_per_text:
  assumes "returned (query fuel (traced E) db sql params (s, [])) = Some r"
    and "prepared_statement E db sql s = Some stmt"
    and "list_all bindable params"
  shows "length (allocated (trace_of (query fuel (traced E) db sql params (s, []))))
           = length (freed (trace_of (query fuel (traced E) db sql params (s, []))))
             + length (filter is_text params)"
proof -
  from returned_Some [OF assms(1)] obtain s' tr where
    run: "query fuel (traced E) db sql params (s, []) = Some (r, s', tr)"
    by (metis prod.exhaust)
  from query_log_observed [OF run assms(2)] obtain s0 where
    "length (allocated tr) = 2 + length (allocated (bind_log E stmt 0 params s0))"
    "length (freed tr) = 2"
    by blast
  with run show ?thesis
    by (simp add: bind_log_allocated reached_bindable [OF assms(3)])
qed

theorem query_keeps_one_buffer_per_text_witness:
  "returned (query 2 (traced echo) echo_conn ''SELECT ?'' [JString ''a'', JNull] (echo_init, []))
     = Some (Inr [[(''?'', JString ''a'')]]) \<and>
   prepared_statement echo echo_conn ''SELECT ?'' echo_init = Some echo_stmt \<and>
   list_all bindable [JString ''a'', JNull] \<and>
   length (allocated (trace_of
     (query 2 (traced echo) echo_conn ''SELECT ?'' [JString ''a'', JNull] (echo_init, [])))) = 3 \<and>
   length (freed (trace_of
     (query 2 (traced echo) echo_conn ''SELECT ?'' [JString ''a'', JNull] (echo_init, [])))) = 2"
proof -
  have run: "returned (query 2 (traced echo) echo_conn ''SELECT ?'' [JString ''a'', JNull] (echo_init, []))
     = Some (Inr [[(''?'', JString ''a'')]])"
    by code_simp
  have prep: "prepared_statement echo echo_conn ''SELECT ?'' echo_init = Some echo_stmt"
    by code_simp
  have b: "list_all bindable [JString ''a'', JNull]" by simp
  have f: "length (freed (trace_of
     (query 2 (traced echo) echo_conn ''SELECT ?'' [JString ''a'', JNull] (echo_init, [])))) = 2"
    by code_simp
  from query_keeps_one_buffer_per_text [OF run prep b] run prep b f
  show ?thesis by simp
qed

lemma setKey_trace:
  "snd (snd (setKey (traced E) db key (s, tr)))
     = snd (snd (exec (traced E) db (key_statement key) (s, tr)))"
  by (simp add: setKey_def exec_def Let_def split_beta split: sum.splits error.splits)

text \<open>
  \<open>open\<close>, for every engine whose message the host can read, on every path (open
  failure, null handle, keying failure, success): it frees the buffers it allocated,
  each once, in the reverse order of their allocation.
\<close>

theorem open_releases_its_allocations:
  assumes "reads_every_text E"
  shows "freed (snd (snd (open_db (traced E) filename key (s, [])))) =
           rev (allocated (snd (snd (open_db (traced E) filename key (s, [])))))"
proof -
  let ?fp = "fst (allocateUTF8 E filename s)"
  let ?s1 = "snd (allocateUTF8 E filename s)"
  let ?pp = "fst (malloc E 4 ?s1)"
  let ?s2 = "snd (malloc E 4 ?s1)"
  let ?rc = "fst (sqlite3_open E ?fp ?pp ?s2)"
  let ?s3 = "snd (sqlite3_open E ?fp ?pp ?s2)"
  let ?tr3 = "[Call_allocateUTF8 filename ?fp, Call_malloc 4 ?pp, Call_open ?fp ?pp ?rc]"
  let ?db = "\<lparr>dbPtr = getValue E ?pp ?s3, closed = False\<rparr>"
  let ?k = "setKey (traced E) ?db (the key) (?s3, ?tr3)"
  have "snd (snd (open_db (traced E) filename key (s, []))) = ?tr3 @ [Call_free ?pp, Call_free ?fp]
      \<or> snd (snd (open_db (traced E) filename key (s, [])))
           = snd (snd ?k) @ [Call_free ?pp, Call_free ?fp]"
    by (cases key)
       (auto simp: open_db_def Let_def split_beta truthy_key_def split: sum.splits)
  moreover have "snd (snd ?k) = ?tr3 @ [Call_allocateUTF8 (key_statement (the key))
        (fst (allocateUTF8 E (key_statement (the key)) ?s3)),
      Call_malloc 4 (fst (malloc E 4 (snd (allocateUTF8 E (key_statement (the key)) ?s3)))),
      Call_exec (getValue E ?pp ?s3) (fst (allocateUTF8 E (key_statement (the key)) ?s3)) 0 0
        (fst (malloc E 4 (snd (allocateUTF8 E (key_statement (the key)) ?s3))))
        (fst (sqlite3_exec E (getValue E ?pp ?s3)
           (fst (allocateUTF8 E (key_statement (the key)) ?s3)) 0 0
           (fst (malloc E 4 (snd (allocateUTF8 E (key_statement (the key)) ?s3))))
           (snd (malloc E 4 (snd (allocateUTF8 E (key_statement (the key)) ?s3)))))),
      Call_free (fst (malloc E 4 (snd (allocateUTF8 E (key_statement (the key)) ?s3)))),
      Call_free (fst (allocateUTF8 E (key_statement (the key)) ?s3))]"
    by (simp add: setKey_trace exec_trace [OF assms] Let_def)
  ultimately show ?thesis by auto
qed

theorem open_releases_its_allocations_witness:
  "reads_every_text echo \<and>
   allocated (snd (snd (open_db (traced echo) '':memory:'' (Some ''k'') (echo_init, []))))
     = [64, 73, 77, 94] \<and>
   freed (snd (snd (open_db (traced echo) '':memory:'' (Some ''k'') (echo_init, []))))
     = [94, 77, 73, 64]"
proof -
  have a: "allocated (snd (snd (open_db (traced echo) '':memory:'' (Some ''k'') (echo_init, []))))
     = [64, 73, 77, 94]"
    by code_simp
  from open_releases_its_allocations [OF reads_every_text_echo,
      of "'':memory:''" "Some ''k''" echo_init] a reads_every_text_echo
  show ?thesis by simp
qed

section \<open>Use after close\<close>

text \<open>
  Claim C6, at the input \<open>db.close(); db.getChanges()\<close>. \<open>getChanges\<close> and
  \<open>getErrorMessage\<close> do not test \<open>closed\<close>: on a closed connection they call
  \<open>sqlite3_changes\<close> and \<open>sqlite3_errmsg\<close> on the handle that \<open>sqlite3_close\<close> was given,
  where \<open>exec\<close>, \<open>query\<close>, \<open>setKey\<close> and \<open>rekey\<close> throw "Database is closed".
\<close>

theorem getChanges_after_close_reaches_engine:
  "fst (close (traced echo) echo_conn (echo_init, [])) = \<lparr>dbPtr = echo_db, closed = True\<rparr> \<and>
   snd (snd (getChanges (traced echo) (fst (close (traced echo) echo_conn (echo_init, [])))
               (snd (close (traced echo) echo_conn (echo_init, [])))))
     = [Call_close echo_db 0, Call_changes echo_db 0] \<and>
   snd (snd (getErrorMessage (traced echo) (fst (close (traced echo) echo_conn (echo_init, [])))
               (snd (close (traced echo) echo_conn (echo_init, [])))))
     = [Call_close echo_db 0, Call_errmsg echo_db 16]"
  by code_simp

text \<open>
  On a closed connection, for every engine: \<open>close\<close> does nothing and raises nothing, and
  \<open>exec\<close>, \<open>query\<close>, \<open>setKey\<close> and \<open>rekey\<close> fail with "Database is closed" without a call
  to the engine (the engine's state is unchanged).
\<close>

theorem use_after_close:
  assumes "closed db"
  shows "close E db s = (db, s) \<and>
         exec E db sql s = (Inl (Error ''Database is closed''), s) \<and>
         query fuel E db sql params s = Some (Inl (Error ''Database is closed''), s) \<and>
         setKey E db key s = (Inl (Error ''Database is closed''), s) \<and>
         rekey E db key s = (Inl (Error ''Database is closed''), s)"
  using assms
  by (simp add: close_def exec_def query_def setKey_def rekey_def database_closed_def)

theorem use_after_close_witness:
  "closed (fst (close echo echo_conn echo_init)) \<and>
   close echo (fst (close echo echo_conn echo_init)) echo_init
     = (fst (close echo echo_conn echo_init), echo_init) \<and>
   exec echo (fst (close echo echo_conn echo_init)) ''SELECT 1'' echo_init
     = (Inl (Error ''Database is closed''), echo_init) \<and>
   query 2 echo (fst (close echo echo_conn echo_init)) ''SELECT 1'' [] echo_init
     = Some (Inl (Error ''Database is closed''), echo_init)"
proof -
  have c: "closed (fst (close echo echo_conn echo_init))"
    by (simp add: close_def echo_conn_def split_beta)
  from use_after_close [OF c, of echo echo_init "''SELECT 1''" 2 "[]"] c
  show ?thesis by simp
qed

section \<open>Keying at open\<close>

lemma setKey_traced_ok:
  assumes "fst (setKey (traced E) db key (s, tr)) = Inr u"
  shows "\<exists>kp ep. snd (snd (setKey (traced E) db key (s, tr))) =
           tr @ [Call_allocateUTF8 (key_statement key) kp, Call_malloc 4 ep,
                 Call_exec (dbPtr db) kp 0 0 ep SQLITE_OK, Call_free ep, Call_free kp]"
proof -
  from assms have open_conn: "\<not> closed db"
    by (auto simp: setKey_def split: if_splits)
  let ?kp = "fst (allocateUTF8 E (key_statement key) s)"
  let ?s1 = "snd (allocateUTF8 E (key_statement key) s)"
  let ?ep = "fst (malloc E 4 ?s1)"
  let ?s2 = "snd (malloc E 4 ?s1)"
  let ?rc = "fst (sqlite3_exec E (dbPtr db) ?kp 0 0 ?ep ?s2)"
  have ok: "?rc = SQLITE_OK"
  proof (rule ccontr)
    assume "?rc \<noteq> SQLITE_OK"
    then have "\<exists>e. fst (exec (traced E) db (key_statement key) (s, tr)) = Inl e"
      using open_conn by (simp add: exec_def Let_def split_beta split: sum.splits)
    then have "\<exists>e. fst (setKey (traced E) db key (s, tr)) = Inl e"
      using open_conn by (auto simp: setKey_def split: prod.splits sum.splits error.splits)
    with assms show False by auto
  qed
  have "snd (snd (setKey (traced E) db key (s, tr))) =
          tr @ [Call_allocateUTF8 (key_statement key) ?kp, Call_malloc 4 ?ep,
                Call_exec (dbPtr db) ?kp 0 0 ?ep ?rc, Call_free ?ep, Call_free ?kp]"
    using open_conn ok
    by (simp add: setKey_def exec_def Let_def split_beta split: sum.splits error.splits)
  with ok show ?thesis by auto
qed

text \<open>
  Claim C7, as amended. When \<open>open\<close> is given a key that is not the empty string and
  returns a connection, the log of the call is: the filename buffer, the handle cell,
  \<open>sqlite3_open\<close> with status \<open>SQLITE_OK\<close>, then the keying statement
  \<open>PRAGMA key = '...'\<close> (quotes doubled) executed on the new handle with status
  \<open>SQLITE_OK\<close>, then the releases. The keying precedes the return; when it fails, \<open>open\<close>
  throws and returns no connection.
\<close>

theorem open_with_key_issues_keying:
  assumes "key \<noteq> []"
    and "fst (open_db (traced E) filename (Some key) (s, [])) = Inr db"
  shows "\<exists>fp pp kp ep.
           snd (snd (open_db (traced E) filename (Some key) (s, []))) =
             [Call_allocateUTF8 filename fp, Call_malloc 4 pp, Call_open fp pp SQLITE_OK,
              Call_allocateUTF8 (key_statement key) kp, Call_malloc 4 ep,
              Call_exec (dbPtr db) kp 0 0 ep SQLITE_OK, Call_free ep, Call_free kp,
              Call_free pp, Call_free fp]"
proof -
  let ?fp = "fst (allocateUTF8 E filename s)"
  let ?s1 = "snd (allocateUTF8 E filename s)"
  let ?pp = "fst (malloc E 4 ?s1)"
  let ?s2 = "snd (malloc E 4 ?s1)"
  let ?rc = "fst (sqlite3_open E ?fp ?pp ?s2)"
  let ?s3 = "snd (sqlite3_open E ?fp ?pp ?s2)"
  let ?tr3 = "[Call_allocateUTF8 filename ?fp, Call_malloc 4 ?pp, Call_open ?fp ?pp ?rc]"
  let ?p = "getValue E ?pp ?s3"
  let ?db = "\<lparr>dbPtr = ?p, closed = False\<rparr>"
  from assms have ok: "?rc = SQLITE_OK" and nonnull: "?p \<noteq> 0"
    by (auto simp: open_db_def Let_def split_beta truthy_key_def split: if_splits)
  obtain rk sk trk where k: "setKey (traced E) ?db key (?s3, ?tr3) = (rk, sk, trk)"
    by (metis prod_cases3)
  from assms ok nonnull k have rk: "rk = Inr ()" and db: "db = ?db"
    by (auto simp: open_db_def Let_def split_beta truthy_key_def split: if_splits sum.splits)
  from k rk have "fst (setKey (traced E) ?db key (?s3, ?tr3)) = Inr ()" by simp
  from setKey_traced_ok [OF this] k obtain kp ep where
    trk: "trk = ?tr3 @ [Call_allocateUTF8 (key_statement key) kp, Call_malloc 4 ep,
                 Call_exec ?p kp 0 0 ep SQLITE_OK, Call_free ep, Call_free kp]"
    by auto
  have "snd (snd (open_db (traced E) filename (Some key) (s, []))) =
          trk @ [Call_free ?pp, Call_free ?fp]"
    using assms(1) ok nonnull k rk
    by (simp add: open_db_def Let_def split_beta truthy_key_def)
  with trk ok db show ?thesis
    by (intro exI [of _ ?fp] exI [of _ ?pp] exI [of _ kp] exI [of _ ep]) simp
qed

theorem open_with_key_issues_keying_witness:
  "''k'' \<noteq> [] \<and>
   fst (open_db (traced echo) '':memory:'' (Some ''k'') (echo_init, []))
     = Inr \<lparr>dbPtr = echo_db, closed = False\<rparr> \<and>
   (\<exists>fp pp kp ep.
      snd (snd (open_db (traced echo) '':memory:'' (Some ''k'') (echo_init, []))) =
        [Call_allocateUTF8 '':memory:'' fp, Call_malloc 4 pp, Call_open fp pp SQLITE_OK,
         Call_allocateUTF8 (key_statement ''k'') kp, Call_malloc 4 ep,
         Call_exec (dbPtr \<lparr>dbPtr = echo_db, closed = False\<rparr>) kp 0 0 ep SQLITE_OK,
         Call_free ep, Call_free kp, Call_free pp, Call_free fp])"
proof -
  have k: "''k'' \<noteq> []" by simp
  have run: "fst (open_db (traced echo) '':memory:'' (Some ''k'') (echo_init, []))
     = Inr \<lparr>dbPtr = echo_db, closed = False\<rparr>"
    by code_simp
  from open_with_key_issues_keying [OF k run] k run show ?thesis by blast
qed

text \<open>
  Claim C7 as stated fails for the key \<open>''\<close>: the test \<open>if (key)\<close> is false for the empty
  string, so \<open>open(':memory:', '')\<close> returns a connection and no statement was executed.
\<close>

theorem open_with_empty_key_issues_no_keying:
  "fst (open_db (traced echo) '':memory:'' (Some []) (echo_init, []))
     = Inr \<lparr>dbPtr = echo_db, closed = False\<rparr> \<and>
   snd (snd (open_db (traced echo) '':memory:'' (Some []) (echo_init, [])))
     = [Call_allocateUTF8 '':memory:'' 64, Call_malloc 4 73, Call_open 64 73 0,
        Call_free 73, Call_free 64]"
  by code_simp

section \<open>Decoding a column\<close>














section \<open>Evaluating a run on the echo engine\<close>

lemma echo_sel:
  "allocateUTF8 echo = echo_store"
  "UTF8ToString echo = echo_read None"
  "getValue echo = (\<lambda>p s. case map_of (cells s) p of None \<Rightarrow> 0 | Some v \<Rightarrow> v)"
  "malloc echo = (\<lambda>n s. (next_free s, s\<lparr>next_free := next_free s + n\<rparr>))"
  "free echo = echo_free"
  "sqlite3_open echo = (\<lambda>f out s. (0, s\<lparr>cells := (out, echo_db) # cells s\<rparr>))"
  "sqlite3_close echo = (\<lambda>db s. (0, s))"
  "sqlite3_exec echo = (\<lambda>db sql cb arg err s. (0, s))"
  "sqlite3_prepare_v2 echo = (\<lambda>db sql n out tl. echo_prepare sql out)"
  "sqlite3_step echo = (\<lambda>stmt. echo_step)"
  "sqlite3_finalize echo = (\<lambda>stmt s. (0, s\<lparr>param_count := 0, bound := []\<rparr>))"
  "sqlite3_column_count echo = (\<lambda>stmt s. (of_nat (param_count s), s))"
  "sqlite3_column_name echo = (\<lambda>stmt i s. (8, s))"
  "sqlite3_column_type echo = (\<lambda>stmt i s. (echo_column_type i s, s))"
  "sqlite3_column_text echo = (\<lambda>stmt. echo_column_text)"
  "sqlite3_bind_int echo = (\<lambda>stmt i v. echo_bind i (EInteger (sint v)))"
  "sqlite3_bind_int64 echo = (\<lambda>stmt i v. echo_bind i (EInteger (sint v)))"
  "sqlite3_bind_double echo = (\<lambda>stmt i x. echo_bind_double i x)"
  "sqlite3_bind_text echo = (\<lambda>stmt i p n d. echo_bind_text i p d)"
  "sqlite3_bind_blob echo = (\<lambda>stmt i p n d. echo_bind_text i p d)"
  "sqlite3_errmsg echo = (\<lambda>db s. (16, s))"
  "sqlite3_changes echo = (\<lambda>db s. (0, s))"
  by (simp_all add: echo_def echo_engine_def)

lemma fetch_rows_2:
  "fetch_rows 2 E db stmt cols idx rows s = fetch_rows (Suc (Suc 0)) E db stmt cols idx rows s"
  by (simp add: numeral_2_eq_2)

lemma show_int_minus_2147483648: "show_int (- 2147483648) = ''-2147483648''"
  by (simp add: show_int_def show_nat.simps digit_char_def)

lemma array_index_question: "array_index ''?'' = None"
  by (simp add: array_index_def digit_of_def)

lemmas echo_eval = echo_sel echo_conn_def echo_store_def echo_bind_def echo_bind_text_def
  echo_bind_double_def echo_read_def
  echo_column_text_def echo_column_type_def echo_prepare_def echo_step_def echo_free_def
  echo_text_def c_string_def echo_init_def echo_stmt_def echo_db_def SQLITE_RANGE_def
  SQLITE_STATIC_def SQLITE_TRANSIENT_def

lemmas query_eval = query_def query_prepared_def query_statement_def try_finally_def
  bindParameters_def column_value_def set_property_def put_property_def empty_object_def
  array_index_question column_key_def getErrorMessage_def
  SQLITE_OK_def SQLITE_ROW_def SQLITE_DONE_def database_closed_def Let_def fetch_rows_2
  returned_def trace_of_def

section \<open>The status of a bind call\<close>

lemma bindParameters_from_bindable:
  "list_all bindable ps \<Longrightarrow> fst (bindParameters_from E stmt i ps s) = Inr ()"
proof (induction ps arbitrary: i s)
  case Nil
  show ?case by simp
next
  case (Cons p ps)
  then show ?case by (cases p) (simp_all add: Let_def split_beta)
qed

lemma bound_positions_range: "set (bound_positions i ps) \<subseteq> {i + 1 .. i + length ps}"
proof (induction ps arbitrary: i)
  case Nil
  show ?case by simp
next
  case (Cons p ps)
  from Cons.IH [of "i + 1"] show ?case by auto
qed

text \<open>
  Claim C5, as amended. \<open>bindParameters\<close> drops the status of every bind call: for
  parameters that are null, undefined, numbers or strings it returns normally whatever
  the engine answers, so a bind at an index beyond the statement's parameter count is
  not detected. Its bind calls are at the 1-based positions of the parameters that are
  neither null nor undefined, all within \<open>1 .. params.length\<close>: a parameter that is not
  supplied gets no bind call and keeps the engine's default.
\<close>

theorem bind_statuses_are_dropped:
  assumes "list_all bindable params"
  shows "fst (bindParameters E stmt params s) = Inr () \<and>
         map fst (bind_results (snd (snd (bindParameters (traced E) stmt params (s, [])))))
           = map of_nat (bound_positions 0 params) \<and>
         set (bound_positions 0 params) \<subseteq> {1 .. length params}"
proof -
  have "fst (bindParameters E stmt params s) = Inr ()"
    using assms by (simp add: bindParameters_def bindParameters_from_bindable)
  moreover have "map fst (bind_results (snd (snd (bindParameters (traced E) stmt params (s, [])))))
           = map of_nat (bound_positions 0 params)"
    using bind_log_positions [OF assms, of E stmt 0 s]
    by (simp add: bind_log_eq)
  moreover have "set (bound_positions 0 params) \<subseteq> {1 .. length params}"
    using bound_positions_range [of 0 params] by simp
  ultimately show ?thesis by blast
qed

theorem bind_statuses_are_dropped_witness:
  "list_all bindable [JNumber (Finite 1), JNull, JNumber (Finite 2)] \<and>
   fst (bindParameters echo echo_stmt [JNumber (Finite 1), JNull, JNumber (Finite 2)]
          (echo_init\<lparr>param_count := 1\<rparr>)) = Inr () \<and>
   map fst (bind_results (snd (snd (bindParameters (traced echo) echo_stmt
          [JNumber (Finite 1), JNull, JNumber (Finite 2)] (echo_init\<lparr>param_count := 1\<rparr>, [])))))
     = [1, 3] \<and>
   bound_positions 0 [JNumber (Finite 1), JNull, JNumber (Finite 2)] = [1, 3] \<and>
   returned (query 2 echo echo_conn ''SELECT ?'' [] echo_init) = Some (Inr [[(''?'', JNull)]])"
proof -
  have b: "list_all bindable [JNumber (Finite 1), JNull, JNumber (Finite 2)]" by simp
  have q: "returned (query 2 echo echo_conn ''SELECT ?'' [] echo_init) = Some (Inr [[(''?'', JNull)]])"
    by code_simp
  have p: "bound_positions 0 [JNumber (Finite 1), JNull, JNumber (Finite 2)] = [1, 3]"
    by (simp add: numeral_3_eq_3)
  from bind_statuses_are_dropped [OF b, of echo echo_stmt "echo_init\<lparr>param_count := 1\<rparr>"] q p
  show ?thesis by simp
qed

text \<open>
  Claim C5 as stated fails at \<open>db.query('SELECT ?', [1, 2])\<close>: the statement has one
  parameter, the engine answers the bind at index 2 with \<open>SQLITE_RANGE\<close>, and \<open>query\<close>
  returns its row, with no error.
\<close>

theorem bind_beyond_parameter_count_is_ignored:
  "returned (query 2 (traced echo) echo_conn ''SELECT ?''
      [JNumber (Finite 1), JNumber (Finite 2)] (echo_init, []))
     = Some (Inr [[(''?'', JString ''1'')]]) \<and>
   bind_results (trace_of (query 2 (traced echo) echo_conn ''SELECT ?''
      [JNumber (Finite 1), JNumber (Finite 2)] (echo_init, [])))
     = [(1, SQLITE_OK), (2, SQLITE_RANGE)]"
  by code_simp

section \<open>The destructor of a text bind\<close>

lemma body_event_binds:
  "list_all body_event evs \<Longrightarrow>
   list_all (\<lambda>(i, p, n, d). n = - 1 \<and> d = SQLITE_STATIC) (text_binds evs) \<and>
   blob_binds evs = [] \<and> freed evs = [] \<and> int64_binds evs = []"
proof (induction evs)
  case Nil
  show ?case by (simp add: text_binds_def blob_binds_def int64_binds_def)
next
  case (Cons e evs)
  then show ?case
    by (cases e)
       (simp_all add: text_binds_def blob_binds_def int64_binds_def SQLITE_STATIC_def)
qed

text \<open>
  Claim C8, as amended. Every text bind of \<open>query\<close> is issued with length \<open>-1\<close> and
  destructor 0 (\<open>SQLITE_STATIC\<close>: the engine keeps the caller's pointer), and no blob bind
  is issued at all. No buffer is released before the statement is finalized, so the
  buffer of a bound text is still allocated whenever the engine reads it.
\<close>

theorem text_binds_are_static:
  assumes "returned (query fuel (traced E) db sql params (s, [])) = Some r"
    and "prepared_statement E db sql s = Some stmt"
  shows "list_all (\<lambda>(i, p, n, d). n = - 1 \<and> d = SQLITE_STATIC)
           (text_binds (trace_of (query fuel (traced E) db sql params (s, [])))) \<and>
         blob_binds (trace_of (query fuel (traced E) db sql params (s, []))) = [] \<and>
         (\<exists>pre rc post.
            trace_of (query fuel (traced E) db sql params (s, [])) = pre @ Call_finalize stmt rc # post \<and>
            freed pre = [])"
proof -
  from returned_Some [OF assms(1)] obtain s' tr where
    run: "query fuel (traced E) db sql params (s, []) = Some (r, s', tr)"
    by (metis prod.exhaust)
  from assms(2) have open_conn: "\<not> closed db"
    by (auto simp: prepared_statement_def split: if_splits)
  from query_shape [OF run open_conn] assms(2)
  obtain sqlPtr stmtPtr rc evs rc' where
    tr: "tr = [] @ [Call_allocateUTF8 sql sqlPtr, Call_malloc 4 stmtPtr,
                  Call_prepare_v2 (dbPtr db) sqlPtr (- 1) stmtPtr 0 rc]
               @ (evs @ [Call_finalize stmt rc']) @ [Call_free stmtPtr, Call_free sqlPtr]"
    and evs: "list_all body_event evs"
    by auto
  let ?pre = "[Call_allocateUTF8 sql sqlPtr, Call_malloc 4 stmtPtr,
               Call_prepare_v2 (dbPtr db) sqlPtr (- 1) stmtPtr 0 rc] @ evs"
  note b = body_event_binds [OF evs]
  have 1: "text_binds tr = text_binds evs"
    unfolding tr by (simp add: text_binds_def)
  have 2: "blob_binds tr = blob_binds evs"
    unfolding tr by (simp add: blob_binds_def)
  have 3: "tr = ?pre @ Call_finalize stmt rc' # [Call_free stmtPtr, Call_free sqlPtr]"
    unfolding tr by simp
  have 4: "freed ?pre = []"
    using b by (simp add: freed_def)
  from 3 4 have "\<exists>pre rc post. tr = pre @ Call_finalize stmt rc # post \<and> freed pre = []"
    by blast
  with 1 2 b run show ?thesis by simp
qed

theorem text_binds_are_static_witness:
  "returned (query 2 (traced echo) echo_conn ''SELECT ?'' [JString ''a''] (echo_init, []))
     = Some (Inr [[(''?'', JString ''a'')]]) \<and>
   prepared_statement echo echo_conn ''SELECT ?'' echo_init = Some echo_stmt \<and>
   list_all (\<lambda>(i, p, n, d). n = - 1 \<and> d = SQLITE_STATIC)
     (text_binds (trace_of
        (query 2 (traced echo) echo_conn ''SELECT ?'' [JString ''a''] (echo_init, [])))) \<and>
   blob_binds (trace_of
        (query 2 (traced echo) echo_conn ''SELECT ?'' [JString ''a''] (echo_init, []))) = [] \<and>
   (\<exists>pre rc post.
      trace_of (query 2 (traced echo) echo_conn ''SELECT ?'' [JString ''a''] (echo_init, []))
        = pre @ Call_finalize echo_stmt rc # post \<and> freed pre = [])"
proof -
  have run: "returned (query 2 (traced echo) echo_conn ''SELECT ?'' [JString ''a''] (echo_init, []))
     = Some (Inr [[(''?'', JString ''a'')]])"
    by code_simp
  have prep: "prepared_statement echo echo_conn ''SELECT ?'' echo_init = Some echo_stmt"
    by code_simp
  from text_binds_are_static [OF run prep] run prep show ?thesis by blast
qed

text \<open>
  Claim C8 as stated fails at \<open>db.query('SELECT ?', ['a'])\<close>: the destructor passed to
  \<open>sqlite3_bind_text\<close> is \<open>SQLITE_STATIC\<close>, not \<open>SQLITE_TRANSIENT\<close>, and the engine holds
  the pointer it was given, not a copy.
\<close>

theorem text_bind_is_not_transient:
  "text_binds (trace_of
     (query 2 (traced echo) echo_conn ''SELECT ?'' [JString ''a''] (echo_init, [])))
     = [(1, 77, - 1, SQLITE_STATIC)] \<and>
   SQLITE_STATIC \<noteq> SQLITE_TRANSIENT \<and>
   bound (snd (bindParameters echo echo_stmt [JString ''a''] (echo_init\<lparr>param_count := 1\<rparr>)))
     = [(1, EText 64)]"
  by code_simp

section \<open>The width of an integer bind\<close>

lemma ToInt32_of_int: "ToInt32 (Finite (of_int n)) = word_of_int n"
  by simp

lemma sint_ToInt32_in_range:
  "- (2 ^ 31) \<le> n \<Longrightarrow> n < 2 ^ 31 \<Longrightarrow> sint (ToInt32 (Finite (of_int n))) = n"
  by (simp add: signed_of_int signed_take_bit_int_eq_self)

text \<open>
  Claim C9, as amended. When \<open>query\<close> has prepared a statement and returns, its calls of
  \<open>sqlite3_bind_int\<close> are exactly these: one for every parameter that is an integer
  number, among the parameters that \<open>bindParameters\<close> reaches, in their order, on the
  prepared statement, at the 1-based position of the parameter, with the value
  converted to a 32-bit signed integer. \<open>sqlite3_bind_int64\<close> is never called, and the
  only buffers allocated are the two of \<open>query\<close> and one for each text parameter: none
  for a number. An integer in the signed 32-bit range arrives unchanged.
\<close>

theorem integer_binds_through_bind_int:
  assumes "returned (query fuel (traced E) db sql params (s, [])) = Some r"
    and "prepared_statement E db sql s = Some stmt"
  shows "int_binds (trace_of (query fuel (traced E) db sql params (s, [])))
           = map (\<lambda>(j, x). (stmt, of_nat j, sint (ToInt32 x)))
               (integer_parameters 0 (reached params)) \<and>
         int64_binds (trace_of (query fuel (traced E) db sql params (s, []))) = [] \<and>
         length (allocated (trace_of (query fuel (traced E) db sql params (s, []))))
           = 2 + length (filter is_text (reached params)) \<and>
         (\<forall>n. - (2 ^ 31) \<le> n \<and> n < 2 ^ 31 \<longrightarrow> sint (ToInt32 (Finite (of_int n))) = n)"
proof -
  from returned_Some [OF assms(1)] obtain s' tr where
    run: "query fuel (traced E) db sql params (s, []) = Some (r, s', tr)"
    by (metis prod.exhaust)
  from query_log_observed [OF run assms(2)] obtain s0 where
    "int_binds tr = int_binds (bind_log E stmt 0 params s0)"
    "length (allocated tr) = 2 + length (allocated (bind_log E stmt 0 params s0))"
    "int64_binds tr = []"
    by blast
  moreover have "\<forall>n. - (2 ^ 31) \<le> n \<and> n < 2 ^ 31 \<longrightarrow> sint (ToInt32 (Finite (of_int n))) = n"
    using sint_ToInt32_in_range by blast
  ultimately show ?thesis
    using run by (simp only: trace_of_Some bind_log_int_binds bind_log_allocated)
qed

theorem integer_binds_through_bind_int_witness:
  "returned (query 2 (traced echo) echo_conn ''SELECT ?, ?, ?''
      [JNumber (Finite 5), JString ''a'', JNumber (Finite (- 7))] (echo_init, []))
     = Some (Inr [[(''?'', JString ''-7'')]]) \<and>
   prepared_statement echo echo_conn ''SELECT ?, ?, ?'' echo_init = Some echo_stmt \<and>
   int_binds (trace_of (query 2 (traced echo) echo_conn ''SELECT ?, ?, ?''
      [JNumber (Finite 5), JString ''a'', JNumber (Finite (- 7))] (echo_init, [])))
     = [(echo_stmt, 1, 5), (echo_stmt, 3, - 7)] \<and>
   int64_binds (trace_of (query 2 (traced echo) echo_conn ''SELECT ?, ?, ?''
      [JNumber (Finite 5), JString ''a'', JNumber (Finite (- 7))] (echo_init, []))) = [] \<and>
   length (allocated (trace_of (query 2 (traced echo) echo_conn ''SELECT ?, ?, ?''
      [JNumber (Finite 5), JString ''a'', JNumber (Finite (- 7))] (echo_init, [])))) = 3 \<and>
   sint (ToInt32 (Finite (of_int (- 7)))) = - 7"
proof -
  have run: "returned (query 2 (traced echo) echo_conn ''SELECT ?, ?, ?''
      [JNumber (Finite 5), JString ''a'', JNumber (Finite (- 7))] (echo_init, []))
     = Some (Inr [[(''?'', JString ''-7'')]])"
    by code_simp
  have prep: "prepared_statement echo echo_conn ''SELECT ?, ?, ?'' echo_init = Some echo_stmt"
    by code_simp
  have params: "map (\<lambda>(j, x). (echo_stmt, of_nat j :: i32, sint (ToInt32 x)))
                  (integer_parameters 0
                     (reached [JNumber (Finite 5), JString ''a'', JNumber (Finite (- 7))]))
                  = [(echo_stmt, 1, 5), (echo_stmt, 3, - 7)]"
    by code_simp
  have texts: "length (filter is_text
                 (reached [JNumber (Finite 5), JString ''a'', JNumber (Finite (- 7))])) = 1"
    by simp
  have range: "sint (ToInt32 (Finite (of_int (- 7)))) = - 7"
    by simp
  from integer_binds_through_bind_int [OF run prep] run prep range
  show ?thesis by (simp only: params texts) simp
qed

text \<open>
  Claim C9 as stated fails at \<open>2147483648\<close>, which a 64-bit signed integer holds: the
  engine receives \<open>-2147483648\<close> through \<open>sqlite3_bind_int\<close>.
\<close>

theorem integer_beyond_32_bits_is_truncated:
  "Number_isInteger (Finite 2147483648) \<and>
   int_binds (trace_of (query 2 (traced echo) echo_conn ''SELECT ?''
      [JNumber (Finite 2147483648)] (echo_init, []))) = [(echo_stmt, 1, - 2147483648)] \<and>
   int64_binds (trace_of (query 2 (traced echo) echo_conn ''SELECT ?''
      [JNumber (Finite 2147483648)] (echo_init, []))) = [] \<and>
   returned (query 2 (traced echo) echo_conn ''SELECT ?''
      [JNumber (Finite 2147483648)] (echo_init, []))
     = Some (Inr [[(''?'', JString ''-2147483648'')]])"
  by (simp add: echo_eval query_eval show_int_minus_2147483648 int_binds_def int64_binds_def)

section \<open>Binding a value and reading it back\<close>

lemma echo_text_round_trip:
  assumes "CHR 0x00 \<notin> set t"
  shows "returned (query 2 echo echo_conn ''SELECT ?'' [JString t] echo_init)
           = Some (Inr [[(''?'', JString t)]])"
proof -
  from assms have "takeWhile (\<lambda>c. c \<noteq> CHR 0x00) t = t"
    by (auto simp: takeWhile_eq_all_conv)
  then show ?thesis
    by (simp add: echo_eval query_eval)
qed

lemma echo_null_round_trip:
  "returned (query 2 echo echo_conn ''SELECT ?'' [JNull] echo_init) = Some (Inr [[(''?'', JNull)]])"
  by (simp add: echo_eval query_eval)

lemma query_texts:
  assumes "returned (query fuel E db sql params s) = Some (Inr rows)"
  shows "list_all row_of_texts rows"
proof -
  from assms have "returned (query fuel (traced E) db sql params (s, [])) = Some (Inr rows)"
    by (simp add: query_returned_simulates)
  from returned_Some [OF this] obtain s' tr where
    "query fuel (traced E) db sql params (s, []) = Some (Inr rows, s', tr)"
    by (metis prod.exhaust)
  then have "rows = rows_read tr" by (rule query_rows_read)
  then show ?thesis by (simp add: rows_read_def rows_of_texts)
qed

lemma query_values_are_texts:
  assumes "returned (query fuel E db sql params s) = Some (Inr rows)"
    and "row \<in> set rows" and "(name, v) \<in> set row"
  shows "text_or_null v \<and> v \<noteq> JNumber x \<and> v \<noteq> JBytes b"
proof -
  from query_texts [OF assms(1)] assms(2,3) have "text_or_null v"
    by (auto simp: list_all_iff row_of_texts_def)
  then show ?thesis by (cases v) simp_all
qed

lemma bindParameters_from_rejects:
  "list_all bindable pre \<Longrightarrow> \<not> bindable p \<Longrightarrow>
   fst (bindParameters_from E stmt i (pre @ p # rest) s)
     = Inl (Error (''Unsupported parameter type: '' @ typeof p))"
proof (induction pre arbitrary: i s)
  case Nil
  then show ?case by (cases p) simp_all
next
  case (Cons a pre)
  then show ?case by (cases a) (simp_all add: Let_def split_beta)
qed

lemma query_rejects:
  assumes "prepared_statement E db sql s = Some stmt"
    and "list_all bindable pre" and "\<not> bindable p"
  shows "returned (query fuel E db sql (pre @ p # rest) s)
           = Some (Inl (Error (''Unsupported parameter type: '' @ typeof p)))"
proof -
  from assms(1) have open_conn: "\<not> closed db"
    by (auto simp: prepared_statement_def split: if_splits)
  let ?sqlPtr = "fst (allocateUTF8 E sql s)"
  let ?s1 = "snd (allocateUTF8 E sql s)"
  let ?stmtPtr = "fst (malloc E 4 ?s1)"
  let ?s2 = "snd (malloc E 4 ?s1)"
  let ?rc = "fst (sqlite3_prepare_v2 E (dbPtr db) ?sqlPtr (- 1) ?stmtPtr 0 ?s2)"
  let ?s3 = "snd (sqlite3_prepare_v2 E (dbPtr db) ?sqlPtr (- 1) ?stmtPtr 0 ?s2)"
  from assms(1) open_conn have ok: "?rc = SQLITE_OK" and stmt: "getValue E ?stmtPtr ?s3 = stmt"
    and nonnull: "stmt \<noteq> 0"
    by (auto simp: prepared_statement_def prepared_by_def Let_def split_beta split: if_splits)
  obtain sb where
    b: "bindParameters E stmt (pre @ p # rest) ?s3
          = (Inl (Error (''Unsupported parameter type: '' @ typeof p)), sb)"
    using bindParameters_from_rejects [OF assms(2,3), of E stmt 0 rest ?s3]
    by (cases "bindParameters E stmt (pre @ p # rest) ?s3") (simp add: bindParameters_def)
  show ?thesis
    using open_conn ok stmt nonnull b
    by (simp add: query_def query_prepared_def query_statement_def try_finally_def returned_def
          Let_def split_beta)
qed

text \<open>
  Claim C3, as amended. What one bind/step cycle of \<open>query\<close> does to a value, by tag:
  \<^item> Text, for every engine: each text parameter that \<open>bindParameters\<close> reaches is handed
    to the engine at its position as the buffer that \<open>allocateUTF8\<close> made of that very
    text (NUL-terminated: the bind passes the length \<open>-1\<close>);
  \<^item> for every engine, a value read back is a string or null, so a bound Integer or Real
    never reads back as an equal number;
  \<^item> Blob, for every engine: a byte array after bindable parameters makes \<open>query\<close> throw
    "Unsupported parameter type: object"; no byte array is bound or read back;
  \<^item> on the echo engine, which returns the bound parameter: a text without a NUL
    character reads back equal, the empty string included, and null reads back null.
\<close>

theorem round_trip_of_a_bound_value:
  "texts_bound (snd (snd (bindParameters (traced E) stmt params (s, []))))
     = map (\<lambda>(j, t). (stmt, of_nat j, t)) (text_parameters 0 (reached params)) \<and>
   (returned (query fuel E db sql params s) = Some (Inr rows) \<longrightarrow>
      row \<in> set rows \<longrightarrow> (name, v) \<in> set row \<longrightarrow>
      text_or_null v \<and> v \<noteq> JNumber x \<and> v \<noteq> JBytes b') \<and>
   (prepared_statement E db sql s = Some stmt' \<longrightarrow> list_all bindable pre \<longrightarrow>
      returned (query fuel E db sql (pre @ JBytes b # rest) s)
        = Some (Inl (Error ''Unsupported parameter type: object''))) \<and>
   (CHR 0x00 \<notin> set t \<longrightarrow>
      returned (query 2 echo echo_conn ''SELECT ?'' [JString t] echo_init)
        = Some (Inr [[(''?'', JString t)]])) \<and>
   returned (query 2 echo echo_conn ''SELECT ?'' [JNull] echo_init) = Some (Inr [[(''?'', JNull)]])"
proof (intro conjI impI)
  show "texts_bound (snd (snd (bindParameters (traced E) stmt params (s, []))))
     = map (\<lambda>(j, t). (stmt, of_nat j, t)) (text_parameters 0 (reached params))"
    by (simp only: bind_log_eq bind_log_texts_bound)
  show "text_or_null v" "v \<noteq> JNumber x" "v \<noteq> JBytes b'"
    if "returned (query fuel E db sql params s) = Some (Inr rows)"
      and "row \<in> set rows" and "(name, v) \<in> set row"
    using query_values_are_texts [OF that, of x b'] by simp_all
  show "returned (query fuel E db sql (pre @ JBytes b # rest) s)
        = Some (Inl (Error ''Unsupported parameter type: object''))"
    if "prepared_statement E db sql s = Some stmt'" and "list_all bindable pre"
    using query_rejects [OF that, of "JBytes b" fuel rest] by simp
  show "returned (query 2 echo echo_conn ''SELECT ?'' [JString t] echo_init)
        = Some (Inr [[(''?'', JString t)]])"
    if "CHR 0x00 \<notin> set t"
    using that by (rule echo_text_round_trip)
  show "returned (query 2 echo echo_conn ''SELECT ?'' [JNull] echo_init)
          = Some (Inr [[(''?'', JNull)]])"
    by (rule echo_null_round_trip)
qed

theorem round_trip_of_a_bound_value_witness:
  "texts_bound (snd (snd (bindParameters (traced echo) echo_stmt
       [JString ''a'', JNull, JString []] (echo_init\<lparr>param_count := 3\<rparr>, []))))
     = [(echo_stmt, 1, ''a''), (echo_stmt, 3, [])] \<and>
   returned (query 2 echo echo_conn ''SELECT ?'' [JNumber (Finite 42)] echo_init)
     = Some (Inr [[(''?'', JString ''42'')]]) \<and>
   [(''?'', JString ''42'')] \<in> set [[(''?'', JString ''42'')]] \<and>
   (''?'', JString ''42'') \<in> set [(''?'', JString ''42'')] \<and>
   text_or_null (JString ''42'') \<and> JString ''42'' \<noteq> JNumber (Finite 42) \<and>
   prepared_statement echo echo_conn ''SELECT ?'' echo_init = Some echo_stmt \<and>
   list_all bindable [JNumber (Finite 1)] \<and>
   returned (query 2 echo echo_conn ''SELECT ?'' ([JNumber (Finite 1)] @ JBytes [1, 2] # []) echo_init)
     = Some (Inl (Error ''Unsupported parameter type: object'')) \<and>
   CHR 0x00 \<notin> set [] \<and>
   returned (query 2 echo echo_conn ''SELECT ?'' [JString []] echo_init)
     = Some (Inr [[(''?'', JString [])]])"
proof -
  have run: "returned (query 2 echo echo_conn ''SELECT ?'' [JNumber (Finite 42)] echo_init)
     = Some (Inr [[(''?'', JString ''42'')]])"
    by code_simp
  have prep: "prepared_statement echo echo_conn ''SELECT ?'' echo_init = Some echo_stmt"
    by code_simp
  have texts: "map (\<lambda>(j, t). (echo_stmt, of_nat j :: i32, t))
                 (text_parameters 0 (reached [JString ''a'', JNull, JString []]))
                 = [(echo_stmt, 1, ''a''), (echo_stmt, 3, [])]"
    by code_simp
  note c3 = round_trip_of_a_bound_value [where E = echo and stmt = echo_stmt
      and params = "[JString ''a'', JNull, JString []]" and s = "echo_init\<lparr>param_count := 3\<rparr>"]
  note c3' = round_trip_of_a_bound_value [where E = echo and fuel = 2 and db = echo_conn
      and sql = "''SELECT ?''" and params = "[JNumber (Finite 42)]" and s = echo_init
      and rows = "[[(''?'', JString ''42'')]]" and row = "[(''?'', JString ''42'')]"
      and name = "''?''" and v = "JString ''42''" and x = "Finite 42" and b' = "[]"
      and stmt' = echo_stmt and pre = "[JNumber (Finite 1)]" and b = "[1, 2]" and rest = "[]"
      and t = "[]"]
  have 1: "texts_bound (snd (snd (bindParameters (traced echo) echo_stmt
       [JString ''a'', JNull, JString []] (echo_init\<lparr>param_count := 3\<rparr>, []))))
     = [(echo_stmt, 1, ''a''), (echo_stmt, 3, [])]"
    using c3 by (simp only: texts)
  have 2: "list_all bindable [JNumber (Finite 1)]" by simp
  have 3: "returned (query 2 echo echo_conn ''SELECT ?''
                ([JNumber (Finite 1)] @ JBytes [1, 2] # []) echo_init)
     = Some (Inl (Error ''Unsupported parameter type: object''))"
    using c3' prep 2 by blast
  have 4: "returned (query 2 echo echo_conn ''SELECT ?'' [JString []] echo_init)
     = Some (Inr [[(''?'', JString [])]])"
    using c3' by simp
  have 5: "text_or_null (JString ''42'') \<and> JString ''42'' \<noteq> JNumber (Finite 42)"
    using c3' run by simp
  from 1 run 5 prep 2 3 4 show ?thesis by simp
qed

text \<open>
  Claim C3 as stated fails for the integer 42, which reads back as the string \<open>'42'\<close>;
  for the real 0.5, which reads back as the string \<open>'0.5'\<close>; for NaN, which the engine
  stores as NULL and which reads back null; for a byte array, which \<open>query\<close> rejects;
  and for a text that holds a NUL character, which is bound with length \<open>-1\<close> and so
  ends at the NUL.
\<close>

theorem integer_and_blob_do_not_round_trip:
  "returned (query 2 echo echo_conn ''SELECT ?'' [JNumber (Finite 42)] echo_init)
     = Some (Inr [[(''?'', JString ''42'')]]) \<and>
   JString ''42'' \<noteq> JNumber (Finite 42) \<and>
   returned (query 2 echo echo_conn ''SELECT ?'' [JNumber (Finite (1 / 2))] echo_init)
     = Some (Inr [[(''?'', JString ''0.5'')]]) \<and>
   JString ''0.5'' \<noteq> JNumber (Finite (1 / 2)) \<and>
   returned (query 2 echo echo_conn ''SELECT ?'' [JNumber NaN] echo_init)
     = Some (Inr [[(''?'', JNull)]]) \<and>
   JNull \<noteq> JNumber NaN \<and>
   returned (query 2 echo echo_conn ''SELECT ?'' [JBytes [1, 2]] echo_init)
     = Some (Inl (Error ''Unsupported parameter type: object'')) \<and>
   returned (query 2 echo echo_conn ''SELECT ?'' [JString [CHR ''a'', CHR 0x00, CHR ''b'']] echo_init)
     = Some (Inr [[(''?'', JString ''a'')]]) \<and>
   JString ''a'' \<noteq> JString [CHR ''a'', CHR 0x00, CHR ''b'']"
  by code_simp

end
